theory Spec2Isabelle
  imports Main "HOL-Library.Sublist"
begin

section \<open>The UPnP library as the client sees it\<close>

text \<open>
  The package drives Sonos players through three libraries it does not implement:
  \<^verbatim>\<open>goupnp\<close> (discovery, device descriptions), \<^verbatim>\<open>goupnp/soap\<close>
  (remote actions) and \<^verbatim>\<open>encoding/xml\<close>. Their data is modelled with the
  fields the package reads; what they answer is a parameter of the model (\<open>env\<close>
  below), so every theorem holds for every network and every decoder.
\<close>

text \<open>A request or response struct: its fields by name, every value a string.\<close>

type_synonym fields = "(string \<times> string) list"

text \<open>Reading a field of a response struct: a field the reply did not set keeps
  Go's zero value, the empty string.\<close>

definition field :: "fields \<Rightarrow> string \<Rightarrow> string" where
  "field r k = (case map_of r k of None \<Rightarrow> [] | Some v \<Rightarrow> v)"

text \<open>\<^verbatim>\<open>goupnp.Service\<close>.\<close>

record Service =
  ServiceType :: string
  ControlURL :: string

text \<open>\<^verbatim>\<open>goupnp.Device\<close>: \<open>Services\<close> lists the services that
  \<^verbatim>\<open>FindService\<close> visits, in its visiting order.\<close>

record UPnPDevice =
  UDN :: string
  Manufacturer :: string
  Services :: "Service list"

text \<open>\<^verbatim>\<open>soap.SOAPClient\<close>: the control endpoint it posts to.\<close>

record SOAPClient =
  EndpointURL :: string

text \<open>\<^verbatim>\<open>goupnp.MaybeRootDevice\<close>: one response to the probe. \<open>Root\<close> is read
  only when \<open>Err\<close> is \<open>None\<close> (Go's \<^verbatim>\<open>nil\<close>).\<close>

record MaybeRootDevice =
  Location :: string
  Root :: UPnPDevice
  Err :: "string option"

text \<open>\<^verbatim>\<open>context.Context\<close>, as far as a call can tell: still live, or already
  cancelled (or past its deadline) when the call is made.\<close>

datatype Ctx = Live | Cancelled

text \<open>One entry of the parsed DIDL-Lite document (the anonymous struct of
  \<^verbatim>\<open>LoadSonosPlaylist\<close>).\<close>

record Container =
  ID :: string
  Title :: string
  Res :: string

text \<open>
  The world outside the package:
  \<^item> \<open>DiscoverDevices\<close> is \<^verbatim>\<open>goupnp.DiscoverDevices(searchTarget)\<close>; it takes
    no context;
  \<^item> \<open>PerformActionCtx\<close> is \<^verbatim>\<open>sc.PerformActionCtx(ctx, serviceType, action, in, out)\<close>:
    an error, or the fields written to \<^verbatim>\<open>out\<close>;
  \<^item> \<open>xmlUnmarshal\<close> is \<^verbatim>\<open>xml.Unmarshal(data, &didl)\<close> on a zero \<^verbatim>\<open>didl\<close>:
    the containers it leaves in \<^verbatim>\<open>didl\<close> and the error it returns. The decoder
    fills its target as it reads, so an error does not imply an empty list.
\<close>

record env =
  DiscoverDevices :: "string \<Rightarrow> string + MaybeRootDevice list"
  PerformActionCtx :: "Ctx \<Rightarrow> SOAPClient \<Rightarrow> string \<Rightarrow> string \<Rightarrow> fields \<Rightarrow> string + fields"
  xmlUnmarshal :: "string \<Rightarrow> Container list \<times> string option"

text \<open>The calls the package makes to the network primitives, in order, with their
  arguments.\<close>

datatype event =
    Probe string
  | Action Ctx SOAPClient string string fields

text \<open>\<^verbatim>\<open>dev.FindService(serviceType)\<close>.\<close>

definition FindService :: "UPnPDevice \<Rightarrow> string \<Rightarrow> Service list" where
  "FindService d t = filter (\<lambda>s. ServiceType s = t) (Services d)"

text \<open>\<^verbatim>\<open>svc.NewSOAPClient()\<close>.\<close>

definition NewSOAPClient :: "Service \<Rightarrow> SOAPClient" where
  "NewSOAPClient s = \<lparr>EndpointURL = ControlURL s\<rparr>"

text \<open>\<^verbatim>\<open>strings.Contains(s, substr)\<close>.\<close>

definition Contains :: "string \<Rightarrow> string \<Rightarrow> bool" where
  "Contains s substr = sublist substr s"

section \<open>The package: errors, constants, client and device handle\<close>

text \<open>The errors the package returns, one constructor per \<^verbatim>\<open>fmt.Errorf\<close> format:
  \<^item> \<open>External m\<close>: an error value handed back by a library;
  \<^item> \<open>Wrap msg e\<close>: \<^verbatim>\<open>fmt.Errorf("msg: %w", e)\<close>;
  \<^item> \<open>UnknownService t\<close>: \<^verbatim>\<open>"unknown service %q for device"\<close>;
  \<^item> \<open>UnknownZone z\<close>: \<^verbatim>\<open>"unknown zone %q, or it has no devices"\<close>;
  \<^item> \<open>NoAV1Service z\<close>: \<^verbatim>\<open>"did not find an AV1 service in zone %q"\<close>;
  \<^item> \<open>PlaylistNotFound name n\<close>:
    \<^verbatim>\<open>"did not find Sonos playlist named %q (checked %d)"\<close>.\<close>

datatype error =
    External string
  | Wrap string error
  | UnknownService string
  | UnknownZone string
  | NoAV1Service string
  | PlaylistNotFound string nat

definition devPropertiesService :: string where
  "devPropertiesService = ''urn:schemas-upnp-org:service:DeviceProperties:1''"

text \<open>\<^verbatim>\<open>av1.URN_AVTransport_1\<close> and \<^verbatim>\<open>av1.URN_ContentDirectory_1\<close>.\<close>

definition URN_AVTransport_1 :: string where
  "URN_AVTransport_1 = ''urn:schemas-upnp-org:service:AVTransport:1''"

definition URN_ContentDirectory_1 :: string where
  "URN_ContentDirectory_1 = ''urn:schemas-upnp-org:service:ContentDirectory:1''"

definition URN_RenderingControl_1 :: string where
  "URN_RenderingControl_1 = ''urn:schemas-upnp-org:service:RenderingControl:1''"

record Client =
  devices :: "UPnPDevice list"
  zones :: "string \<rightharpoonup> UPnPDevice list"

record Device =
  dev :: UPnPDevice

subsection \<open>PlayMode\<close>

text \<open>\<^verbatim>\<open>type PlayMode int\<close> with six constants numbered by \<^verbatim>\<open>iota\<close>; any other
  integer is a \<open>PlayMode\<close> as well.\<close>

type_synonym PlayMode = int

definition NormalPlayMode :: PlayMode where "NormalPlayMode = 0"
definition RepeatAll :: PlayMode where "RepeatAll = 1"
definition RepeatOne :: PlayMode where "RepeatOne = 2"
definition Shuffle :: PlayMode where "Shuffle = 3"
definition ShuffleRepeat :: PlayMode where "ShuffleRepeat = 4"
definition ShuffleRepeatOne :: PlayMode where "ShuffleRepeatOne = 5"

definition playModeIDs :: "PlayMode \<rightharpoonup> string" where
  "playModeIDs = map_of
     [(NormalPlayMode, ''NORMAL''),
      (RepeatAll, ''REPEAT_ALL''),
      (RepeatOne, ''REPEAT_ONE''),
      (Shuffle, ''SHUFFLE_NOREPEAT''),
      (ShuffleRepeat, ''SHUFFLE''),
      (ShuffleRepeatOne, ''SHUFFLE_REPEAT_ONE'')]"

text \<open>The index expression \<^verbatim>\<open>playModeIDs[mode]\<close>: a key the map lacks yields the
  zero value.\<close>

definition playModeID :: "PlayMode \<Rightarrow> string" where
  "playModeID mode = (case playModeIDs mode of None \<Rightarrow> [] | Some s \<Rightarrow> s)"

text \<open>The closed enumeration, in declaration order.\<close>

definition playModes :: "PlayMode list" where
  "playModes = [NormalPlayMode, RepeatAll, RepeatOne, Shuffle, ShuffleRepeat, ShuffleRepeatOne]"

subsection \<open>Resolving a service and invoking an action\<close>

definition serviceClient :: "UPnPDevice \<Rightarrow> string \<Rightarrow> error + SOAPClient" where
  "serviceClient d serviceType =
     (case FindService d serviceType of
        [] \<Rightarrow> Inl (UnknownService serviceType)
      | s # _ \<Rightarrow> Inr (NewSOAPClient s))"

text \<open>\<^verbatim>\<open>Device.soap\<close>: the result (the error, or the fields written to \<^verbatim>\<open>out\<close>)
  and the calls made.\<close>

definition soap ::
  "env \<Rightarrow> Device \<Rightarrow> Ctx \<Rightarrow> string \<Rightarrow> string \<Rightarrow> fields \<Rightarrow> (error + fields) \<times> event list" where
  "soap e d ctx serviceType action inp =
     (case serviceClient (dev d) serviceType of
        Inl err \<Rightarrow> (Inl err, [])
      | Inr sc \<Rightarrow>
          (case PerformActionCtx e ctx sc serviceType action inp of
             Inl m \<Rightarrow> (Inl (External m), [Action ctx sc serviceType action inp])
           | Inr out \<Rightarrow> (Inr out, [Action ctx sc serviceType action inp])))"

text \<open>The tail every control operation shares:
  \<^verbatim>\<open>if err != nil { return fmt.Errorf("msg: %w", err) }; return nil\<close>.\<close>

definition wrapped :: "string \<Rightarrow> (error + fields) \<times> event list \<Rightarrow> (error + unit) \<times> event list" where
  "wrapped msg r =
     (case r of
        (Inl err, tr) \<Rightarrow> (Inl (Wrap msg err), tr)
      | (Inr out, tr) \<Rightarrow> (Inr (), tr))"

subsection \<open>Discover\<close>

text \<open>The map index \<^verbatim>\<open>c.zones[zone]\<close>: a missing key reads as the nil slice.\<close>

definition zoneDevices :: "Client \<Rightarrow> string \<Rightarrow> UPnPDevice list" where
  "zoneDevices c zone = (case zones c zone of None \<Rightarrow> [] | Some devs \<Rightarrow> devs)"

text \<open>One iteration of the loop over the probe's responses; every
  \<^verbatim>\<open>continue\<close> returns the state reached so far. (\<^verbatim>\<open>log.Printf\<close> is not
  modelled.)\<close>

definition discoverStep ::
  "env \<Rightarrow> Ctx \<Rightarrow> MaybeRootDevice \<Rightarrow> Client \<times> event list \<Rightarrow> Client \<times> event list" where
  "discoverStep e ctx mrd st =
     (case st of (c, tr) \<Rightarrow>
        if Err mrd \<noteq> None then (c, tr)
        else
          let d = Root mrd in
          if \<not> Contains (Manufacturer d) ''Sonos, Inc.'' then (c, tr)
          else
            let c1 = c\<lparr>devices := devices c @ [d]\<rparr> in
            (case FindService d devPropertiesService of
               [] \<Rightarrow> (c1, tr)
             | s # _ \<Rightarrow>
                 let sc = NewSOAPClient s;
                     tr1 = tr @ [Action ctx sc (ServiceType s) ''GetZoneAttributes'' []]
                 in
                 (case PerformActionCtx e ctx sc (ServiceType s) ''GetZoneAttributes'' [] of
                    Inl m \<Rightarrow> (c1, tr1)
                  | Inr resp \<Rightarrow>
                      let zone = field resp ''CurrentZoneName'' in
                      (c1\<lparr>zones := (zones c1)(zone \<mapsto> zoneDevices c1 zone @ [d])\<rparr>, tr1))))"

fun discoverLoop ::
  "env \<Rightarrow> Ctx \<Rightarrow> MaybeRootDevice list \<Rightarrow> Client \<times> event list \<Rightarrow> Client \<times> event list" where
  "discoverLoop e ctx [] st = st"
| "discoverLoop e ctx (mrd # mrds) st = discoverLoop e ctx mrds (discoverStep e ctx mrd st)"

definition Discover :: "env \<Rightarrow> Ctx \<Rightarrow> (error + Client) \<times> event list" where
  "Discover e ctx =
     (let c = \<lparr>devices = [], zones = Map.empty\<rparr>;
          tr = [Probe devPropertiesService]
      in
      case DiscoverDevices e devPropertiesService of
        Inl m \<Rightarrow> (Inl (Wrap ''discovering AV1'' (External m)), tr)
      | Inr mrds \<Rightarrow> (case discoverLoop e ctx mrds (c, tr) of (c', tr') \<Rightarrow> (Inr c', tr')))"

subsection \<open>ZoneDevice\<close>

text \<open>The loop over the zone's devices: the first one whose AVTransport service
  resolves.\<close>

fun firstAV1 :: "UPnPDevice list \<Rightarrow> Device option" where
  "firstAV1 [] = None"
| "firstAV1 (d # devs) =
     (case serviceClient d URN_AVTransport_1 of
        Inl err \<Rightarrow> firstAV1 devs
      | Inr sc \<Rightarrow> Some \<lparr>dev = d\<rparr>)"

definition ZoneDevice :: "Client \<Rightarrow> Ctx \<Rightarrow> string \<Rightarrow> error + Device" where
  "ZoneDevice c ctx zone =
     (case zones c zone of
        None \<Rightarrow> Inl (UnknownZone zone)
      | Some devs \<Rightarrow>
          (case firstAV1 devs of
             Some d \<Rightarrow> Inr d
           | None \<Rightarrow> Inl (NoAV1Service zone)))"

text \<open>The file \<^verbatim>\<open>sonos.go\<close> holds an earlier state of the same package, in which the
  handle keeps the resolved client and \<^verbatim>\<open>ZoneDevice\<close> ranges over
  \<^verbatim>\<open>c.zones[zone]\<close> without asking whether the key is present.\<close>

record Device_v0 =
  dev_v0 :: UPnPDevice
  av1_v0 :: SOAPClient

fun firstAV1_v0 :: "UPnPDevice list \<Rightarrow> Device_v0 option" where
  "firstAV1_v0 [] = None"
| "firstAV1_v0 (d # devs) =
     (case FindService d URN_AVTransport_1 of
        [] \<Rightarrow> firstAV1_v0 devs
      | s # _ \<Rightarrow> Some \<lparr>dev_v0 = d, av1_v0 = NewSOAPClient s\<rparr>)"

definition ZoneDevice_v0 :: "Client \<Rightarrow> Ctx \<Rightarrow> string \<Rightarrow> error + Device_v0" where
  "ZoneDevice_v0 c ctx zone =
     (case firstAV1_v0 (zoneDevices c zone) of
        Some d \<Rightarrow> Inr d
      | None \<Rightarrow> Inl (NoAV1Service zone))"

subsection \<open>Control operations\<close>

definition Ungroup :: "env \<Rightarrow> Device \<Rightarrow> Ctx \<Rightarrow> (error + unit) \<times> event list" where
  "Ungroup e d ctx =
     wrapped ''ungrouping''
       (soap e d ctx URN_AVTransport_1 ''BecomeCoordinatorOfStandaloneGroup''
          [(''InstanceID'', ''0'')])"

definition ClearQueue :: "env \<Rightarrow> Device \<Rightarrow> Ctx \<Rightarrow> (error + unit) \<times> event list" where
  "ClearQueue e d ctx =
     wrapped ''clearing queue''
       (soap e d ctx URN_AVTransport_1 ''RemoveAllTracksFromQueue''
          [(''InstanceID'', ''0'')])"

definition SetPlayMode :: "env \<Rightarrow> Device \<Rightarrow> Ctx \<Rightarrow> PlayMode \<Rightarrow> (error + unit) \<times> event list" where
  "SetPlayMode e d ctx mode =
     wrapped ''setting play mode''
       (soap e d ctx URN_AVTransport_1 ''SetPlayMode''
          [(''InstanceID'', ''0''), (''NewPlayMode'', playModeID mode)])"

text \<open>Decimal digits of a natural number, most significant first.\<close>

definition digit :: "nat \<Rightarrow> char" where
  "digit k = ''0123456789'' ! k"

fun digits :: "nat \<Rightarrow> string" where
  "digits n = (if n < 10 then [digit n] else digits (n div 10) @ [digit (n mod 10)])"

text \<open>\<^verbatim>\<open>strconv.Itoa\<close>.\<close>

definition Itoa :: "int \<Rightarrow> string" where
  "Itoa i = (if i < 0 then CHR ''-'' # digits (nat (- i)) else digits (nat i))"

text \<open>What a decimal string denotes: the value of its digits, negated after a
  leading minus sign. (Not part of the package: the yardstick for \<open>Itoa\<close>.)\<close>

definition digitValue :: "char \<Rightarrow> nat" where
  "digitValue c = of_char c - 48"

definition natValue :: "string \<Rightarrow> nat" where
  "natValue s = foldl (\<lambda>a c. 10 * a + digitValue c) 0 s"

definition decimalValue :: "string \<Rightarrow> int" where
  "decimalValue s =
     (case s of
        [] \<Rightarrow> 0
      | c # r \<Rightarrow> if c = CHR ''-'' then - int (natValue r) else int (natValue s))"

definition SetVolume :: "env \<Rightarrow> Device \<Rightarrow> Ctx \<Rightarrow> int \<Rightarrow> (error + unit) \<times> event list" where
  "SetVolume e d ctx volume =
     wrapped ''setting volume''
       (soap e d ctx URN_RenderingControl_1 ''SetVolume''
          [(''InstanceID'', ''0''), (''Channel'', ''Master''), (''DesiredVolume'', Itoa volume)])"

text \<open>\<^verbatim>\<open>time.Duration\<close> counts nanoseconds in an \<^verbatim>\<open>int64\<close>. The sleep timer
  divides, multiplies and subtracts only in its positive branch, where every
  intermediate value lies between 0 and the duration given (lemma
  \<open>sleepTimer_no_overflow\<close>), so unbounded integers compute what the machine does.\<close>

type_synonym Duration = int

definition Second :: Duration where "Second = 1000000000"
definition Minute :: Duration where "Minute = 60 * Second"
definition Hour :: Duration where "Hour = 60 * Minute"

text \<open>Go's integer division truncates toward zero.\<close>

definition quo :: "int \<Rightarrow> int \<Rightarrow> int" where
  "quo a b = sgn a * sgn b * (\<bar>a\<bar> div \<bar>b\<bar>)"

text \<open>The verb \<^verbatim>\<open>%02d\<close> of \<^verbatim>\<open>fmt.Sprintf\<close>: zeros between the sign and the digits
  up to a width of two. (Its arguments here are of type \<^verbatim>\<open>time.Duration\<close>; the verb
  prints their integer value.)\<close>

definition fmt_02d :: "int \<Rightarrow> string" where
  "fmt_02d n =
     (let sign = (if n < 0 then ''-'' else []);
          ds = digits (nat \<bar>n\<bar>)
      in sign @ replicate (2 - length sign - length ds) CHR ''0'' @ ds)"

text \<open>The string \<^verbatim>\<open>dur\<close> that \<^verbatim>\<open>SetSleepTimer\<close> computes.\<close>

definition sleepTimerDuration :: "Duration \<Rightarrow> string" where
  "sleepTimerDuration duration =
     (if duration > 0 then
        let hh = quo duration Hour;
            duration1 = duration - hh * Hour;
            mm = quo duration1 Minute;
            duration2 = duration1 - mm * Minute;
            ss = quo duration2 Second
        in fmt_02d hh @ '':'' @ fmt_02d mm @ '':'' @ fmt_02d ss
      else [])"

definition SetSleepTimer :: "env \<Rightarrow> Device \<Rightarrow> Ctx \<Rightarrow> Duration \<Rightarrow> (error + unit) \<times> event list" where
  "SetSleepTimer e d ctx duration =
     wrapped ''setting sleep timer''
       (soap e d ctx URN_AVTransport_1 ''ConfigureSleepTimer''
          [(''InstanceID'', ''0''), (''NewSleepTimerDuration'', sleepTimerDuration duration)])"

definition Play :: "env \<Rightarrow> Device \<Rightarrow> Ctx \<Rightarrow> (error + unit) \<times> event list" where
  "Play e d ctx =
     wrapped ''playing''
       (soap e d ctx URN_AVTransport_1 ''Play''
          [(''InstanceID'', ''0''), (''Speed'', ''1'')])"

subsection \<open>LoadSonosPlaylist\<close>

definition browseRequest :: fields where
  "browseRequest =
     [(''ObjectID'', ''SQ:''),
      (''BrowseFlag'', ''BrowseDirectChildren''),
      (''Filter'', ''*''),
      (''StartingIndex'', ''0''),
      (''RequestedCount'', ''100''),
      (''SortCriteria'', ''+upnp:artist,+dc:title'')]"

text \<open>The request of \<^verbatim>\<open>AddURIToQueue\<close>; \<^verbatim>\<open>EnqueuedURIMetaData\<close> is never set.\<close>

definition addURIRequest :: "string \<Rightarrow> fields" where
  "addURIRequest uri =
     [(''InstanceID'', ''0''),
      (''EnqueuedURI'', uri),
      (''EnqueuedURIMetaData'', []),
      (''DesiredFirstTrackNumberEnqueued'', ''1''),
      (''EnqueueAsNext'', ''1'')]"

text \<open>The scan for the playlist: \<^verbatim>\<open>uri\<close> starts empty and takes the \<^verbatim>\<open>Res\<close> of the
  first container whose title is the name, where the loop breaks.\<close>

fun scanURI :: "Container list \<Rightarrow> string \<Rightarrow> string" where
  "scanURI [] playlistName = []"
| "scanURI (c # cs) playlistName =
     (if Title c = playlistName then Res c else scanURI cs playlistName)"

text \<open>After a successful \<^verbatim>\<open>Browse\<close> the variable \<^verbatim>\<open>err\<close> is nil. The statement
  \<^verbatim>\<open>if xml.Unmarshal(...); err != nil\<close> runs the decoder, drops what it returns
  and tests that same \<^verbatim>\<open>err\<close>.\<close>

definition LoadSonosPlaylist ::
  "env \<Rightarrow> Device \<Rightarrow> Ctx \<Rightarrow> string \<Rightarrow> (error + unit) \<times> event list" where
  "LoadSonosPlaylist e d ctx playlistName =
     (case soap e d ctx URN_ContentDirectory_1 ''Browse'' browseRequest of
        (Inl err, tr) \<Rightarrow> (Inl (Wrap ''browsing'' err), tr)
      | (Inr raw, tr) \<Rightarrow>
          (let err = (None :: error option);
               didl = fst (xmlUnmarshal e (field raw ''Result''))
           in
           case err of
             Some x \<Rightarrow> (Inl (Wrap ''unmarshaling DIDL-Lite XML'' x), tr)
           | None \<Rightarrow>
               let uri = scanURI didl playlistName in
               if uri = [] then (Inl (PlaylistNotFound playlistName (length didl)), tr)
               else
                 (case soap e d ctx URN_AVTransport_1 ''AddURIToQueue'' (addURIRequest uri) of
                    (Inl err', tr') \<Rightarrow> (Inl (Wrap ''adding to queue'' err'), tr @ tr')
                  | (Inr resp, tr') \<Rightarrow> (Inr (), tr @ tr'))))"

subsection \<open>Observing the calls\<close>

text \<open>The context a recorded call was made with; the probe has none.\<close>

primrec eventCtx :: "event \<Rightarrow> Ctx option" where
  "eventCtx (Probe target) = None"
| "eventCtx (Action ctx sc serviceType action inp) = Some ctx"

text \<open>The seven control operations of a handle, run with one context.\<close>

definition controlOperations ::
  "env \<Rightarrow> Device \<Rightarrow> Ctx \<Rightarrow> PlayMode \<Rightarrow> int \<Rightarrow> Duration \<Rightarrow> string
   \<Rightarrow> ((error + unit) \<times> event list) list" where
  "controlOperations e d ctx mode volume duration playlistName =
     [Ungroup e d ctx, ClearQueue e d ctx, SetPlayMode e d ctx mode, SetVolume e d ctx volume,
      SetSleepTimer e d ctx duration, Play e d ctx, LoadSonosPlaylist e d ctx playlistName]"

section \<open>Invariants of the client\<close>

text \<open>What \<open>Discover\<close> maintains, as predicates on the client: every zone of the
  mapping has a device and holds only devices of the flat list; and every device of
  a zone is one whose device-properties service was found and answered the zone
  query.\<close>

definition zonesWithin :: "Client \<Rightarrow> bool" where
  "zonesWithin c = (\<forall>z ds. zones c z = Some ds \<longrightarrow> ds \<noteq> [] \<and> set ds \<subseteq> set (devices c))"

definition zoneAnswered :: "env \<Rightarrow> Ctx \<Rightarrow> Client \<Rightarrow> bool" where
  "zoneAnswered e ctx c =
     (\<forall>z ds. zones c z = Some ds \<longrightarrow>
        (\<forall>d\<in>set ds. \<exists>s rest resp.
           FindService d devPropertiesService = s # rest
           \<and> PerformActionCtx e ctx (NewSOAPClient s) (ServiceType s) ''GetZoneAttributes'' []
               = Inr resp))"

section \<open>A household to compute on\<close>

text \<open>Concrete inputs for the closed instances below: seven responses to the probe
  (one failed, one from another vendor, a device without services, one whose
  zone query times out), three zones, and a decoder that knows two documents, a
  complete one and one cut off after its first container.\<close>

definition svc :: "string \<Rightarrow> string \<Rightarrow> Service" where
  "svc host t = \<lparr>ServiceType = t, ControlURL = host @ ''/'' @ t\<rparr>"

definition boost :: UPnPDevice where
  "boost = \<lparr>UDN = ''uuid:RINCON_1'', Manufacturer = ''Sonos, Inc.'',
     Services = [svc ''10.0.0.1'' devPropertiesService]\<rparr>"

definition player :: UPnPDevice where
  "player = \<lparr>UDN = ''uuid:RINCON_2'', Manufacturer = ''Sonos, Inc.'',
     Services = [svc ''10.0.0.2'' devPropertiesService, svc ''10.0.0.2'' URN_ContentDirectory_1,
                 svc ''10.0.0.2'' URN_RenderingControl_1, svc ''10.0.0.2'' URN_AVTransport_1]\<rparr>"

definition bridge :: UPnPDevice where
  "bridge = \<lparr>UDN = ''uuid:RINCON_3'', Manufacturer = ''Sonos, Inc.'',
     Services = [svc ''10.0.0.3'' devPropertiesService]\<rparr>"

definition sub :: UPnPDevice where
  "sub = \<lparr>UDN = ''uuid:RINCON_4'', Manufacturer = ''IKEA / Sonos, Inc.'', Services = []\<rparr>"

definition amp :: UPnPDevice where
  "amp = \<lparr>UDN = ''uuid:RINCON_5'', Manufacturer = ''Sonos, Inc.'',
     Services = [svc ''10.0.0.5'' devPropertiesService, svc ''10.0.0.5'' URN_AVTransport_1]\<rparr>"

definition den :: UPnPDevice where
  "den = \<lparr>UDN = ''uuid:RINCON_6'', Manufacturer = ''Sonos, Inc.'',
     Services = [svc ''10.0.0.6'' devPropertiesService, svc ''10.0.0.6'' URN_AVTransport_1,
                 svc ''10.0.0.6'' URN_ContentDirectory_1]\<rparr>"

definition router :: UPnPDevice where
  "router = \<lparr>UDN = ''uuid:gw'', Manufacturer = ''ACME'',
     Services = [svc ''10.0.0.254'' devPropertiesService]\<rparr>"

definition noDevice :: UPnPDevice where
  "noDevice = \<lparr>UDN = [], Manufacturer = [], Services = []\<rparr>"

definition responses :: "MaybeRootDevice list" where
  "responses =
     [\<lparr>Location = ''http://10.0.0.9/desc.xml'', Root = noDevice, Err = Some ''connection refused''\<rparr>,
      \<lparr>Location = ''http://10.0.0.254/desc.xml'', Root = router, Err = None\<rparr>,
      \<lparr>Location = ''http://10.0.0.1/desc.xml'', Root = boost, Err = None\<rparr>,
      \<lparr>Location = ''http://10.0.0.2/desc.xml'', Root = player, Err = None\<rparr>,
      \<lparr>Location = ''http://10.0.0.3/desc.xml'', Root = bridge, Err = None\<rparr>,
      \<lparr>Location = ''http://10.0.0.4/desc.xml'', Root = sub, Err = None\<rparr>,
      \<lparr>Location = ''http://10.0.0.5/desc.xml'', Root = amp, Err = None\<rparr>,
      \<lparr>Location = ''http://10.0.0.6/desc.xml'', Root = den, Err = None\<rparr>]"

definition jazz :: Container where
  "jazz = \<lparr>ID = [], Title = ''Jazz'', Res = ''file:///jffs/settings/savedqueues.rsq#1''\<rparr>"

definition morning :: Container where
  "morning = \<lparr>ID = [], Title = ''Morning'', Res = ''file:///jffs/settings/savedqueues.rsq#2''\<rparr>"

definition draft :: Container where
  "draft = \<lparr>ID = [], Title = ''Draft'', Res = []\<rparr>"

definition wholeDoc :: string where
  "wholeDoc = ''<DIDL-Lite><container><title>Jazz</title><res>file:///jffs/settings/savedqueues.rsq#1</res></container><container><title>Morning</title><res>file:///jffs/settings/savedqueues.rsq#2</res></container><container><title>Draft</title></container></DIDL-Lite>''"

definition cutDoc :: string where
  "cutDoc = ''<DIDL-Lite><container><title>Jazz</title><res>file:///jffs/settings/savedqueues.rsq#1</res></container><container><title>Morn''"

definition household :: env where
  "household =
     \<lparr>DiscoverDevices = (\<lambda>target. Inr responses),
      PerformActionCtx = (\<lambda>ctx sc serviceType action inp.
         if ctx = Cancelled then Inl ''context canceled''
         else if action = ''GetZoneAttributes'' then
           (if EndpointURL sc = ControlURL (svc ''10.0.0.1'' devPropertiesService)
              \<or> EndpointURL sc = ControlURL (svc ''10.0.0.2'' devPropertiesService)
            then Inr [(''CurrentZoneName'', ''Kitchen'')]
            else if EndpointURL sc = ControlURL (svc ''10.0.0.3'' devPropertiesService)
            then Inr [(''CurrentZoneName'', ''Garage'')]
            else if EndpointURL sc = ControlURL (svc ''10.0.0.6'' devPropertiesService)
            then Inr [(''CurrentZoneName'', ''Den'')]
            else Inl ''i/o timeout'')
         else if action = ''Browse'' then
           (if EndpointURL sc = ControlURL (svc ''10.0.0.6'' URN_ContentDirectory_1)
            then Inr [(''Result'', cutDoc)]
            else Inr [(''Result'', wholeDoc)])
         else Inr []),
      xmlUnmarshal = (\<lambda>data.
         if data = wholeDoc then ([jazz, morning, draft], None)
         else if data = cutDoc then ([jazz], Some ''XML syntax error on line 1: unexpected EOF'')
         else ([], Some ''EOF''))\<rparr>"

definition homeClient :: Client where
  "homeClient =
     \<lparr>devices = [boost, player, bridge, sub, amp, den],
      zones = [''Kitchen'' \<mapsto> [boost, player], ''Garage'' \<mapsto> [bridge], ''Den'' \<mapsto> [den]]\<rparr>"

section \<open>Properties\<close>

lemmas playMode_defs =
  NormalPlayMode_def RepeatAll_def RepeatOne_def Shuffle_def ShuffleRepeat_def
  ShuffleRepeatOne_def

lemmas urn_defs =
  devPropertiesService_def URN_AVTransport_1_def URN_ContentDirectory_1_def
  URN_RenderingControl_1_def

lemmas device_defs =
  svc_def boost_def player_def bridge_def sub_def amp_def den_def router_def noDevice_def

subsection \<open>PlayMode encoding\<close>

text \<open>
  C5. The table of play modes has the six declared constants as its keys and no
  other; each constant has its one fixed token, and no two constants share a token.
\<close>

theorem playMode_encoding_total_injective:
  "dom playModeIDs = set playModes
   \<and> map playModeID playModes =
       [''NORMAL'', ''REPEAT_ALL'', ''REPEAT_ONE'', ''SHUFFLE_NOREPEAT'', ''SHUFFLE'',
        ''SHUFFLE_REPEAT_ONE'']
   \<and> inj_on playModeID (set playModes)"
proof (intro conjI)
  show "dom playModeIDs = set playModes"
    by (auto simp: playModes_def playModeIDs_def playMode_defs split: if_splits)
  show "map playModeID playModes =
       [''NORMAL'', ''REPEAT_ALL'', ''REPEAT_ONE'', ''SHUFFLE_NOREPEAT'', ''SHUFFLE'',
        ''SHUFFLE_REPEAT_ONE'']"
    by (simp add: playModes_def playModeID_def playModeIDs_def playMode_defs)
  show "inj_on playModeID (set playModes)"
    by (simp add: playModes_def playModeID_def playModeIDs_def playMode_defs)
qed

theorem playMode_encoding_witness:
  "playModeIDs Shuffle \<noteq> None \<and> playModeID Shuffle \<noteq> playModeID ShuffleRepeat"
proof -
  note T = playMode_encoding_total_injective
  have mem: "Shuffle \<in> set playModes" "ShuffleRepeat \<in> set playModes"
    by (simp_all add: playModes_def)
  have ne: "Shuffle \<noteq> ShuffleRepeat"
    by (simp add: playMode_defs)
  from T mem(1) have "Shuffle \<in> dom playModeIDs" by blast
  moreover from T have "inj_on playModeID (set playModes)" by blast
  with mem ne have "playModeID Shuffle \<noteq> playModeID ShuffleRepeat"
    by (auto dest: inj_onD)
  ultimately show ?thesis by auto
qed

subsection \<open>Discover\<close>

lemma discoverStep_skip:
  "Err m \<noteq> None \<or> \<not> Contains (Manufacturer (Root m)) ''Sonos, Inc.''
   \<Longrightarrow> discoverStep e ctx m st = st"
  by (cases st) (auto simp: discoverStep_def)

lemma discoverStep_unresolved:
  "Err m = None \<Longrightarrow> Contains (Manufacturer (Root m)) ''Sonos, Inc.''
   \<Longrightarrow> FindService (Root m) devPropertiesService = []
   \<Longrightarrow> discoverStep e ctx m (c, tr) = (c\<lparr>devices := devices c @ [Root m]\<rparr>, tr)"
  by (simp add: discoverStep_def)

lemma discoverStep_failed:
  "Err m = None \<Longrightarrow> Contains (Manufacturer (Root m)) ''Sonos, Inc.''
   \<Longrightarrow> FindService (Root m) devPropertiesService = s # rest
   \<Longrightarrow> PerformActionCtx e ctx (NewSOAPClient s) (ServiceType s) ''GetZoneAttributes'' [] = Inl msg
   \<Longrightarrow> discoverStep e ctx m (c, tr) =
         (c\<lparr>devices := devices c @ [Root m]\<rparr>,
          tr @ [Action ctx (NewSOAPClient s) (ServiceType s) ''GetZoneAttributes'' []])"
  by (simp add: discoverStep_def)

lemma discoverStep_joined:
  "Err m = None \<Longrightarrow> Contains (Manufacturer (Root m)) ''Sonos, Inc.''
   \<Longrightarrow> FindService (Root m) devPropertiesService = s # rest
   \<Longrightarrow> PerformActionCtx e ctx (NewSOAPClient s) (ServiceType s) ''GetZoneAttributes'' [] = Inr resp
   \<Longrightarrow> discoverStep e ctx m (c, tr) =
         (c\<lparr>devices := devices c @ [Root m],
            zones := (zones c)(field resp ''CurrentZoneName'' \<mapsto>
                        zoneDevices c (field resp ''CurrentZoneName'') @ [Root m])\<rparr>,
          tr @ [Action ctx (NewSOAPClient s) (ServiceType s) ''GetZoneAttributes'' []])"
  by (simp add: discoverStep_def zoneDevices_def Let_def)

text \<open>What one iteration does to the client, case by case.\<close>

lemma discoverStep_client:
  "fst (discoverStep e ctx m (c, tr)) = c
   \<or> fst (discoverStep e ctx m (c, tr)) = c\<lparr>devices := devices c @ [Root m]\<rparr>
      \<and> Err m = None \<and> Contains (Manufacturer (Root m)) ''Sonos, Inc.''
   \<or> (\<exists>s rest resp.
        fst (discoverStep e ctx m (c, tr)) =
          c\<lparr>devices := devices c @ [Root m],
             zones := (zones c)(field resp ''CurrentZoneName'' \<mapsto>
                         zoneDevices c (field resp ''CurrentZoneName'') @ [Root m])\<rparr>
        \<and> FindService (Root m) devPropertiesService = s # rest
        \<and> PerformActionCtx e ctx (NewSOAPClient s) (ServiceType s) ''GetZoneAttributes'' []
            = Inr resp)"
proof (cases "Err m = None \<and> Contains (Manufacturer (Root m)) ''Sonos, Inc.''")
  case False
  then have "discoverStep e ctx m (c, tr) = (c, tr)"
    using discoverStep_skip [of m e ctx "(c, tr)"] by auto
  then show ?thesis by simp
next
  case retained: True
  show ?thesis
  proof (cases "FindService (Root m) devPropertiesService")
    case Nil
    with retained show ?thesis by (simp add: discoverStep_unresolved)
  next
    case (Cons s rest)
    show ?thesis
    proof (cases "PerformActionCtx e ctx (NewSOAPClient s) (ServiceType s) ''GetZoneAttributes'' []")
      case (Inl msg)
      with retained Cons show ?thesis by (simp add: discoverStep_failed)
    next
      case (Inr resp)
      with retained Cons have "fst (discoverStep e ctx m (c, tr)) =
          c\<lparr>devices := devices c @ [Root m],
             zones := (zones c)(field resp ''CurrentZoneName'' \<mapsto>
                         zoneDevices c (field resp ''CurrentZoneName'') @ [Root m])\<rparr>"
        by (simp add: discoverStep_joined)
      with Cons Inr show ?thesis by blast
    qed
  qed
qed

lemma discoverLoop_invariant:
  assumes step: "\<And>m c tr. P c \<Longrightarrow> P (fst (discoverStep e ctx m (c, tr)))"
      and init: "P (fst st)"
  shows "P (fst (discoverLoop e ctx mrds st))"
  using init
proof (induction mrds arbitrary: st)
  case Nil
  then show ?case by simp
next
  case (Cons m mrds)
  obtain c tr where st: "st = (c, tr)" by (cases st)
  with Cons.prems have "P (fst (discoverStep e ctx m st))"
    using step by simp
  then show ?case using Cons.IH by simp
qed

lemma zonesWithin_step:
  assumes inv: "zonesWithin c"
  shows "zonesWithin (fst (discoverStep e ctx m (c, tr)))"
proof -
  let ?c' = "fst (discoverStep e ctx m (c, tr))"
  consider (same) "?c' = c"
    | (flat) "?c' = c\<lparr>devices := devices c @ [Root m]\<rparr>"
    | (zone) z where "?c' = c\<lparr>devices := devices c @ [Root m],
                               zones := (zones c)(z \<mapsto> zoneDevices c z @ [Root m])\<rparr>"
    using discoverStep_client [of e ctx m c tr] by (elim disjE conjE exE)
  then show ?thesis
  proof cases
    case same
    with inv show ?thesis by simp
  next
    case flat
    have "ds \<noteq> [] \<and> set ds \<subseteq> set (devices c @ [Root m])" if "zones c z = Some ds" for z ds
      using inv that unfolding zonesWithin_def by fastforce
    with flat show ?thesis unfolding zonesWithin_def by simp
  next
    case zone
    have old: "ds \<noteq> [] \<and> set ds \<subseteq> set (devices c)" if "zones c y = Some ds" for y ds
      using inv that unfolding zonesWithin_def by blast
    have zd: "set (zoneDevices c z) \<subseteq> set (devices c)"
    proof (cases "zones c z")
      case None
      then show ?thesis by (simp add: zoneDevices_def)
    next
      case (Some ds)
      with old [of z ds] show ?thesis by (simp add: zoneDevices_def)
    qed
    have "ds \<noteq> [] \<and> set ds \<subseteq> set (devices ?c')" if h: "zones ?c' y = Some ds" for y ds
    proof (cases "y = z")
      case True
      with h zone have "ds = zoneDevices c z @ [Root m]" by simp
      with zd zone show ?thesis by auto
    next
      case False
      with h zone have "zones c y = Some ds" by simp
      from old [OF this] zone show ?thesis by auto
    qed
    then show ?thesis unfolding zonesWithin_def by blast
  qed
qed

lemma Discover_ok:
  "DiscoverDevices e devPropertiesService = Inr mrds \<Longrightarrow>
   Discover e ctx =
     (Inr (fst (discoverLoop e ctx mrds
                  (\<lparr>devices = [], zones = Map.empty\<rparr>, [Probe devPropertiesService]))),
      snd (discoverLoop e ctx mrds
             (\<lparr>devices = [], zones = Map.empty\<rparr>, [Probe devPropertiesService])))"
  by (simp add: Discover_def Let_def split: prod.splits)

lemma Discover_failed:
  "DiscoverDevices e devPropertiesService = Inl msg \<Longrightarrow>
   Discover e ctx = (Inl (Wrap ''discovering AV1'' (External msg)), [Probe devPropertiesService])"
  by (simp add: Discover_def Let_def)

lemma Discover_InrD:
  assumes "Discover e ctx = (Inr c, tr)"
  obtains mrds where "DiscoverDevices e devPropertiesService = Inr mrds"
    and "c = fst (discoverLoop e ctx mrds
                    (\<lparr>devices = [], zones = Map.empty\<rparr>, [Probe devPropertiesService]))"
    and "tr = snd (discoverLoop e ctx mrds
                    (\<lparr>devices = [], zones = Map.empty\<rparr>, [Probe devPropertiesService]))"
proof (cases "DiscoverDevices e devPropertiesService")
  case (Inl msg)
  from Discover_failed [OF this, of ctx] assms show ?thesis by simp
next
  case (Inr mrds)
  from Discover_ok [OF this, of ctx] assms that [OF Inr] show ?thesis by simp
qed

lemma Discover_zonesWithin:
  assumes "Discover e ctx = (Inr c, tr)"
  shows "zonesWithin c"
proof -
  let ?c0 = "\<lparr>devices = [], zones = Map.empty\<rparr>"
  have c0: "zonesWithin ?c0" by (simp add: zonesWithin_def)
  have inv: "zonesWithin (fst (discoverLoop e ctx mrds (?c0, tr0)))" for mrds tr0
    by (rule discoverLoop_invariant [where P = zonesWithin]) (simp_all add: zonesWithin_step c0)
  from assms obtain mrds where
    "c = fst (discoverLoop e ctx mrds (?c0, [Probe devPropertiesService]))"
    by (rule Discover_InrD)
  with inv show ?thesis by simp
qed

lemma discoverStep_devices:
  "devices (fst (discoverStep e ctx m (c, tr))) =
     devices c @ (if Err m = None \<and> Contains (Manufacturer (Root m)) ''Sonos, Inc.''
                  then [Root m] else [])"
proof (cases "Err m = None \<and> Contains (Manufacturer (Root m)) ''Sonos, Inc.''")
  case False
  then show ?thesis
    using discoverStep_skip [of m e ctx "(c, tr)"] by auto
next
  case retained: True
  show ?thesis
  proof (cases "FindService (Root m) devPropertiesService")
    case Nil
    with retained show ?thesis by (simp add: discoverStep_unresolved)
  next
    case (Cons s rest)
    with retained show ?thesis
      by (cases "PerformActionCtx e ctx (NewSOAPClient s) (ServiceType s) ''GetZoneAttributes'' []")
         (simp_all add: discoverStep_failed discoverStep_joined)
  qed
qed

lemma discoverLoop_devices:
  "devices (fst (discoverLoop e ctx mrds st)) =
     devices (fst st) @
     map Root (filter (\<lambda>m. Err m = None \<and> Contains (Manufacturer (Root m)) ''Sonos, Inc.'') mrds)"
proof (induction mrds arbitrary: st)
  case Nil
  then show ?case by simp
next
  case (Cons m mrds)
  obtain c tr where st: "st = (c, tr)" by (cases st)
  from Cons.IH [of "discoverStep e ctx m st"] st show ?case
    by (simp add: discoverStep_devices)
qed


lemma zoneAnswered_step:
  assumes inv: "zoneAnswered e ctx c"
  shows "zoneAnswered e ctx (fst (discoverStep e ctx m (c, tr)))"
proof -
  let ?c' = "fst (discoverStep e ctx m (c, tr))"
  let ?Q = "\<lambda>d. \<exists>s rest resp.
           FindService d devPropertiesService = s # rest
           \<and> PerformActionCtx e ctx (NewSOAPClient s) (ServiceType s) ''GetZoneAttributes'' []
               = Inr resp"
  have old: "?Q d" if "zones c y = Some ds" "d \<in> set ds" for y ds d
    using inv that unfolding zoneAnswered_def by blast
  consider (same) "zones ?c' = zones c"
    | (zone) z where "zones ?c' = (zones c)(z \<mapsto> zoneDevices c z @ [Root m])" "?Q (Root m)"
    using discoverStep_client [of e ctx m c tr] by (elim disjE conjE exE) auto
  then show ?thesis
  proof cases
    case same
    with inv show ?thesis by (simp add: zoneAnswered_def)
  next
    case zone
    have zd: "?Q d" if "d \<in> set (zoneDevices c z)" for d
    proof (cases "zones c z")
      case None
      with that show ?thesis by (simp add: zoneDevices_def)
    next
      case (Some ds)
      with that old [of z ds d] show ?thesis by (simp add: zoneDevices_def)
    qed
    have "?Q d" if h: "zones ?c' y = Some ds" "d \<in> set ds" for y ds d
    proof (cases "y = z")
      case True
      with h zone(1) have "d \<in> set (zoneDevices c z) \<or> d = Root m" by auto
      with zd zone(2) show ?thesis by blast
    next
      case False
      with h zone(1) have "zones c y = Some ds" by simp
      from old [OF this h(2)] show ?thesis .
    qed
    then show ?thesis unfolding zoneAnswered_def by blast
  qed
qed

lemma Discover_zoneAnswered:
  assumes "Discover e ctx = (Inr c, tr)"
  shows "zoneAnswered e ctx c"
proof -
  let ?c0 = "\<lparr>devices = [], zones = Map.empty\<rparr>"
  have c0: "zoneAnswered e ctx ?c0" by (simp add: zoneAnswered_def)
  have inv: "zoneAnswered e ctx (fst (discoverLoop e ctx mrds (?c0, tr0)))" for mrds tr0
    by (rule discoverLoop_invariant [where P = "zoneAnswered e ctx"])
       (simp_all add: zoneAnswered_step c0)
  from assms obtain mrds where
    "c = fst (discoverLoop e ctx mrds (?c0, [Probe devPropertiesService]))"
    by (rule Discover_InrD)
  with inv show ?thesis by simp
qed

lemma Discover_zones_nonempty:
  "Discover e ctx = (Inr c, tr) \<Longrightarrow> zones c z \<noteq> Some []"
  using Discover_zonesWithin [of e ctx c tr] by (auto simp: zonesWithin_def)

text \<open>
  C6. In every client that \<open>Discover\<close> returns, the devices of each zone are among
  the devices of the flat list.
\<close>

theorem Discover_zones_subset_devices:
  assumes "Discover e ctx = (Inr c, tr)" and "zones c z = Some ds"
  shows "set ds \<subseteq> set (devices c)"
  using Discover_zonesWithin [OF assms(1)] assms(2) unfolding zonesWithin_def by blast

text \<open>
  C7. When the probe answers, a response without error from a Sonos device whose
  device-properties service is not found, or whose zone query returns an error,
  does not make \<open>Discover\<close> fail: the client is returned, the device is in its
  flat list and in no zone's list.
\<close>

theorem Discover_query_failure_nonfatal:
  assumes probe: "DiscoverDevices e devPropertiesService = Inr mrds"
      and m: "m \<in> set mrds" "Err m = None" "Contains (Manufacturer (Root m)) ''Sonos, Inc.''"
      and fails: "FindService (Root m) devPropertiesService = []
                  \<or> (\<exists>s rest msg. FindService (Root m) devPropertiesService = s # rest
                        \<and> PerformActionCtx e ctx (NewSOAPClient s) (ServiceType s)
                             ''GetZoneAttributes'' [] = Inl msg)"
  shows "\<exists>c tr. Discover e ctx = (Inr c, tr)
           \<and> Root m \<in> set (devices c)
           \<and> (\<forall>z ds. zones c z = Some ds \<longrightarrow> Root m \<notin> set ds)"
proof -
  let ?st = "discoverLoop e ctx mrds
               (\<lparr>devices = [], zones = Map.empty\<rparr>, [Probe devPropertiesService])"
  have D: "Discover e ctx = (Inr (fst ?st), snd ?st)"
    by (rule Discover_ok [OF probe])
  have flat: "Root m \<in> set (devices (fst ?st))"
    using m by (simp add: discoverLoop_devices)
  have "Root m \<notin> set ds" if z: "zones (fst ?st) z = Some ds" for z ds
  proof
    assume "Root m \<in> set ds"
    with Discover_zoneAnswered [OF D] z obtain s rest resp where
      "FindService (Root m) devPropertiesService = s # rest"
      "PerformActionCtx e ctx (NewSOAPClient s) (ServiceType s) ''GetZoneAttributes'' [] = Inr resp"
      unfolding zoneAnswered_def by blast
    with fails show False by auto
  qed
  with D flat show ?thesis by blast
qed


lemma Contains_simps:
  "Contains s [] = True"
  "Contains [] (y # ys) = False"
  "Contains (x # xs) (y # ys) = (prefix (y # ys) (x # xs) \<or> Contains xs (y # ys))"
  by (simp_all add: Contains_def sublist_Cons_right)

lemma household_Discover:
  "Discover household ctx =
     (Inr (if ctx = Live then homeClient
           else \<lparr>devices = [boost, player, bridge, sub, amp, den], zones = Map.empty\<rparr>),
      Probe devPropertiesService #
      map (\<lambda>host. Action ctx (NewSOAPClient (svc host devPropertiesService))
                     devPropertiesService ''GetZoneAttributes'' [])
        [''10.0.0.1'', ''10.0.0.2'', ''10.0.0.3'', ''10.0.0.5'', ''10.0.0.6''])"
  by (cases ctx)
     (simp_all add: Discover_def household_def responses_def discoverStep_def Contains_simps
       device_defs FindService_def urn_defs homeClient_def NewSOAPClient_def field_def
       zoneDevices_def Let_def)

theorem Discover_zones_subset_devices_witness:
  "Discover household Live = (Inr homeClient, snd (Discover household Live))
   \<and> zones homeClient ''Kitchen'' = Some [boost, player]
   \<and> set [boost, player] \<subseteq> set (devices homeClient)"
proof -
  have D: "Discover household Live = (Inr homeClient, snd (Discover household Live))"
    by (simp add: household_Discover)
  have z: "zones homeClient ''Kitchen'' = Some [boost, player]"
    by (simp add: homeClient_def)
  from Discover_zones_subset_devices [OF D z] D z show ?thesis by simp
qed

theorem Discover_query_failure_nonfatal_witness:
  "fst (Discover household Live) = Inr homeClient
   \<and> sub \<in> set (devices homeClient) \<and> sub \<notin> set (zoneDevices homeClient ''Kitchen'')
   \<and> amp \<in> set (devices homeClient) \<and> amp \<notin> set (zoneDevices homeClient ''Kitchen'')"
proof -
  have probe: "DiscoverDevices household devPropertiesService = Inr responses"
    by (simp add: household_def)
  have D: "fst (Discover household Live) = Inr homeClient"
    by (simp add: household_Discover)
  have kitchen: "zones homeClient ''Kitchen'' = Some (zoneDevices homeClient ''Kitchen'')"
    by (simp add: homeClient_def zoneDevices_def)
  let ?r4 = "\<lparr>Location = ''http://10.0.0.4/desc.xml'', Root = sub, Err = None\<rparr>"
  let ?r5 = "\<lparr>Location = ''http://10.0.0.5/desc.xml'', Root = amp, Err = None\<rparr>"
  have "\<exists>c tr. Discover household Live = (Inr c, tr) \<and> Root ?r4 \<in> set (devices c)
          \<and> (\<forall>z ds. zones c z = Some ds \<longrightarrow> Root ?r4 \<notin> set ds)"
    by (rule Discover_query_failure_nonfatal [OF probe])
       (simp_all add: responses_def sub_def Contains_simps FindService_def)
  with D kitchen have 1: "sub \<in> set (devices homeClient)
      \<and> sub \<notin> set (zoneDevices homeClient ''Kitchen'')"
    by auto
  have "\<exists>c tr. Discover household Live = (Inr c, tr) \<and> Root ?r5 \<in> set (devices c)
          \<and> (\<forall>z ds. zones c z = Some ds \<longrightarrow> Root ?r5 \<notin> set ds)"
    by (rule Discover_query_failure_nonfatal [OF probe])
       (simp_all add: responses_def amp_def svc_def urn_defs Contains_simps FindService_def
          household_def NewSOAPClient_def)
  with D kitchen have 2: "amp \<in> set (devices homeClient)
      \<and> amp \<notin> set (zoneDevices homeClient ''Kitchen'')"
    by auto
  from D 1 2 show ?thesis by simp
qed

subsection \<open>ZoneDevice\<close>

lemma firstAV1_first:
  "(\<forall>x\<in>set pre. FindService x URN_AVTransport_1 = []) \<Longrightarrow> FindService d URN_AVTransport_1 \<noteq> []
   \<Longrightarrow> firstAV1 (pre @ d # post) = Some \<lparr>dev = d\<rparr>"
  by (induction pre) (auto simp: serviceClient_def split: list.splits)

lemma firstAV1_none:
  "(\<forall>x\<in>set devs. FindService x URN_AVTransport_1 = []) \<Longrightarrow> firstAV1 devs = None"
  by (induction devs) (auto simp: serviceClient_def split: list.splits)

text \<open>Every handle that \<open>ZoneDevice\<close> returns wraps a device of the zone on which the
  AVTransport service is found.\<close>

lemma firstAV1_Some:
  "firstAV1 devs = Some h \<Longrightarrow> dev h \<in> set devs \<and> FindService (dev h) URN_AVTransport_1 \<noteq> []"
  by (induction devs) (auto simp: serviceClient_def split: list.splits)

lemma ZoneDevice_handle:
  assumes "ZoneDevice c ctx z = Inr h"
  shows "dev h \<in> set (zoneDevices c z) \<and> FindService (dev h) URN_AVTransport_1 \<noteq> []"
proof (cases "zones c z")
  case None
  with assms show ?thesis by (simp add: ZoneDevice_def)
next
  case (Some devs)
  with assms have "firstAV1 devs = Some h"
    by (cases "firstAV1 devs") (simp_all add: ZoneDevice_def)
  from firstAV1_Some [OF this] Some show ?thesis by (simp add: zoneDevices_def)
qed

text \<open>
  C1. A zone that is not a key of the mapping fails with the unknown-zone error; a
  known zone yields the handle of the first device of its list, in order, on which
  the AVTransport service is found; a known zone where no device has it fails with
  the other error. In a client that \<open>Discover\<close> returned no key has an empty list, so
  there a zone without recorded devices is a zone that is not a key.
\<close>

theorem ZoneDevice_resolution:
  "(zones c z = None \<longrightarrow> ZoneDevice c ctx z = Inl (UnknownZone z))
   \<and> (\<forall>pre d post.
         zones c z = Some (pre @ d # post)
         \<and> (\<forall>x\<in>set pre. FindService x URN_AVTransport_1 = [])
         \<and> FindService d URN_AVTransport_1 \<noteq> []
         \<longrightarrow> ZoneDevice c ctx z = Inr \<lparr>dev = d\<rparr>)
   \<and> (\<forall>devs.
         zones c z = Some devs \<and> (\<forall>x\<in>set devs. FindService x URN_AVTransport_1 = [])
         \<longrightarrow> ZoneDevice c ctx z = Inl (NoAV1Service z))
   \<and> UnknownZone z \<noteq> NoAV1Service z
   \<and> (\<forall>e ctx' tr. Discover e ctx' = (Inr c, tr) \<and> zoneDevices c z = []
         \<longrightarrow> ZoneDevice c ctx z = Inl (UnknownZone z))"
proof (intro conjI allI impI)
  show "ZoneDevice c ctx z = Inl (UnknownZone z)" if "zones c z = None"
    using that by (simp add: ZoneDevice_def)
  show "ZoneDevice c ctx z = Inr \<lparr>dev = d\<rparr>"
    if "zones c z = Some (pre @ d # post)
        \<and> (\<forall>x\<in>set pre. FindService x URN_AVTransport_1 = [])
        \<and> FindService d URN_AVTransport_1 \<noteq> []" for pre d post
    using that by (simp add: ZoneDevice_def firstAV1_first)
  show "ZoneDevice c ctx z = Inl (NoAV1Service z)"
    if "zones c z = Some devs \<and> (\<forall>x\<in>set devs. FindService x URN_AVTransport_1 = [])" for devs
    using that by (simp add: ZoneDevice_def firstAV1_none)
  show "UnknownZone z \<noteq> NoAV1Service z"
    by simp
  show "ZoneDevice c ctx z = Inl (UnknownZone z)"
    if h: "Discover e ctx' = (Inr c, tr) \<and> zoneDevices c z = []" for e ctx' tr
  proof (cases "zones c z")
    case None
    then show ?thesis by (simp add: ZoneDevice_def)
  next
    case (Some devs)
    with h have "zones c z = Some []" by (simp add: zoneDevices_def)
    with h Discover_zones_nonempty [of e ctx' c tr z] show ?thesis by simp
  qed
qed

theorem ZoneDevice_resolution_witness:
  "ZoneDevice homeClient Cancelled ''Attic'' = Inl (UnknownZone ''Attic'')
   \<and> ZoneDevice homeClient Live ''Kitchen'' = Inr \<lparr>dev = player\<rparr>
   \<and> ZoneDevice homeClient Live ''Garage'' = Inl (NoAV1Service ''Garage'')
   \<and> Discover household Live = (Inr homeClient, snd (Discover household Live))
   \<and> zoneDevices homeClient ''Cellar'' = []
   \<and> ZoneDevice homeClient Live ''Cellar'' = Inl (UnknownZone ''Cellar'')"
proof -
  note T = ZoneDevice_resolution
  have attic: "zones homeClient ''Attic'' = None"
    by (simp add: homeClient_def)
  have kitchen: "zones homeClient ''Kitchen'' = Some ([boost] @ player # [])
    \<and> (\<forall>x\<in>set [boost]. FindService x URN_AVTransport_1 = [])
    \<and> FindService player URN_AVTransport_1 \<noteq> []"
    by (simp add: homeClient_def device_defs urn_defs FindService_def)
  have garage: "zones homeClient ''Garage'' = Some [bridge]
    \<and> (\<forall>x\<in>set [bridge]. FindService x URN_AVTransport_1 = [])"
    by (simp add: homeClient_def device_defs urn_defs FindService_def)
  have D: "Discover household Live = (Inr homeClient, snd (Discover household Live))"
    by (simp add: household_Discover)
  have cellar: "zoneDevices homeClient ''Cellar'' = []"
    by (simp add: homeClient_def zoneDevices_def)
  have 1: "ZoneDevice homeClient Cancelled ''Attic'' = Inl (UnknownZone ''Attic'')"
    by (rule T [THEN conjunct1, rule_format]) (rule attic)
  have 2: "ZoneDevice homeClient Live ''Kitchen'' = Inr \<lparr>dev = player\<rparr>"
    by (rule T [THEN conjunct2, THEN conjunct1, rule_format]) (rule kitchen)
  have 3: "ZoneDevice homeClient Live ''Garage'' = Inl (NoAV1Service ''Garage'')"
    by (rule T [THEN conjunct2, THEN conjunct2, THEN conjunct1, rule_format]) (rule garage)
  have 4: "ZoneDevice homeClient Live ''Cellar'' = Inl (UnknownZone ''Cellar'')"
    by (rule T [THEN conjunct2, THEN conjunct2, THEN conjunct2, THEN conjunct2, rule_format,
                OF conjI [OF D cellar]])
  from 1 2 3 D cellar 4 show ?thesis by (intro conjI)
qed

text \<open>The state of the package in \<^verbatim>\<open>sonos.go\<close>: on a zone that is a key it chooses the
  same device and fails in the same case; on a zone that is not a key it has no
  error of its own and answers as for a zone without an AVTransport device.\<close>

lemma firstAV1_v0_agrees:
  "map_option dev_v0 (firstAV1_v0 devs) = map_option dev (firstAV1 devs)"
  by (induction devs) (auto simp: serviceClient_def split: list.splits)

lemma ZoneDevice_v0_known:
  assumes "zones c z = Some devs"
  shows "map_sum id dev_v0 (ZoneDevice_v0 c ctx z) = map_sum id dev (ZoneDevice c ctx z)"
proof -
  from firstAV1_v0_agrees [of devs] assms show ?thesis
    by (cases "firstAV1_v0 devs"; cases "firstAV1 devs")
       (simp_all add: ZoneDevice_v0_def ZoneDevice_def zoneDevices_def)
qed

lemma ZoneDevice_v0_unknown:
  "zones c z = None \<Longrightarrow> ZoneDevice_v0 c ctx z = Inl (NoAV1Service z)"
  by (simp add: ZoneDevice_v0_def zoneDevices_def)

subsection \<open>Control operations\<close>

lemma soap_resolved:
  "FindService (dev d) serviceType = s # rest \<Longrightarrow>
   soap e d ctx serviceType action inp =
     ((case PerformActionCtx e ctx (NewSOAPClient s) serviceType action inp of
         Inl m \<Rightarrow> Inl (External m)
       | Inr out \<Rightarrow> Inr out),
      [Action ctx (NewSOAPClient s) serviceType action inp])"
  by (simp add: soap_def serviceClient_def split: sum.splits)

lemma soap_unresolved:
  "FindService (dev d) serviceType = [] \<Longrightarrow>
   soap e d ctx serviceType action inp = (Inl (UnknownService serviceType), [])"
  by (simp add: soap_def serviceClient_def)

lemma wrapped_resolved:
  "FindService (dev d) serviceType = s # rest \<Longrightarrow>
   wrapped msg (soap e d ctx serviceType action inp) =
     ((case PerformActionCtx e ctx (NewSOAPClient s) serviceType action inp of
         Inl m \<Rightarrow> Inl (Wrap msg (External m))
       | Inr out \<Rightarrow> Inr ()),
      [Action ctx (NewSOAPClient s) serviceType action inp])"
  by (simp add: soap_resolved wrapped_def split: sum.splits)

lemma wrapped_unresolved:
  "FindService (dev d) serviceType = [] \<Longrightarrow>
   wrapped msg (soap e d ctx serviceType action inp) =
     (Inl (Wrap msg (UnknownService serviceType)), [])"
  by (simp add: soap_unresolved wrapped_def)

lemma playModeID_unmapped:
  "mode \<notin> set playModes \<Longrightarrow> playModeID mode = []"
  by (simp add: playModes_def playModeID_def playModeIDs_def playMode_defs)

text \<open>
  C10. A play mode outside the six constants finds no token: the index expression
  yields the empty string, and \<open>SetPlayMode\<close> calls the remote action all the same,
  with \<open>NewPlayMode\<close> empty; it fails only if that call does.
\<close>

theorem SetPlayMode_unmapped:
  assumes "mode \<notin> set playModes"
      and "FindService (dev d) URN_AVTransport_1 = s # rest"
  shows "playModeIDs mode = None \<and> playModeID mode = []
         \<and> SetPlayMode e d ctx mode =
             ((case PerformActionCtx e ctx (NewSOAPClient s) URN_AVTransport_1 ''SetPlayMode''
                      [(''InstanceID'', ''0''), (''NewPlayMode'', [])] of
                 Inl m \<Rightarrow> Inl (Wrap ''setting play mode'' (External m))
               | Inr out \<Rightarrow> Inr ()),
              [Action ctx (NewSOAPClient s) URN_AVTransport_1 ''SetPlayMode''
                 [(''InstanceID'', ''0''), (''NewPlayMode'', [])]])"
proof -
  from assms(1) have "playModeIDs mode = None"
    by (simp add: playModes_def playModeIDs_def playMode_defs)
  moreover from assms(1) have "playModeID mode = []"
    by (rule playModeID_unmapped)
  ultimately show ?thesis
    using assms(2) by (simp add: SetPlayMode_def wrapped_resolved)
qed

theorem SetPlayMode_unmapped_witness:
  "(7 :: PlayMode) \<notin> set playModes
   \<and> SetPlayMode household \<lparr>dev = player\<rparr> Live 7 =
       (Inr (),
        [Action Live (NewSOAPClient (svc ''10.0.0.2'' URN_AVTransport_1)) URN_AVTransport_1
           ''SetPlayMode'' [(''InstanceID'', ''0''), (''NewPlayMode'', [])]])"
proof -
  have m: "(7 :: PlayMode) \<notin> set playModes"
    by (simp add: playModes_def playMode_defs)
  have f: "FindService (dev \<lparr>dev = player\<rparr>) URN_AVTransport_1 =
             svc ''10.0.0.2'' URN_AVTransport_1 # []"
    by (simp add: FindService_def device_defs urn_defs)
  from SetPlayMode_unmapped [OF m f, of household Live] m show ?thesis
    by (simp add: household_def)
qed

subsection \<open>Decimal strings\<close>

declare digits.simps [simp del]

lemma below_ten:
  assumes "k < (10 :: nat)"
  shows "k \<in> {0, 1, 2, 3, 4, 5, 6, 7, 8, 9}"
  using assms by auto

lemma digit_cases:
  assumes "k < 10"
  shows "digit k \<in> set ''0123456789'' \<and> digitValue (digit k) = k"
  using below_ten [OF assms] by (auto simp: digit_def digitValue_def)

lemma digits_small: "n < 10 \<Longrightarrow> digits n = [digit n]"
  by (simp add: digits.simps)

lemma digits_large: "\<not> n < 10 \<Longrightarrow> digits n = digits (n div 10) @ [digit (n mod 10)]"
  by (subst digits.simps) simp

lemma digits_two: "10 \<le> n \<Longrightarrow> n < 100 \<Longrightarrow> digits n = [digit (n div 10), digit (n mod 10)]"
  by (simp add: digits_large digits_small)

lemma digits_nonempty: "digits n \<noteq> []"
  by (cases "n < 10") (simp_all add: digits_small digits_large)

lemma digits_chars: "set (digits n) \<subseteq> set ''0123456789''"
proof (induction n rule: digits.induct)
  case (1 n)
  show ?case
  proof (cases "n < 10")
    case True
    with digit_cases [of n] show ?thesis by (simp add: digits_small)
  next
    case False
    have "digit (n mod 10) \<in> set ''0123456789''"
      using digit_cases [of "n mod 10"] by simp
    with 1 False show ?thesis by (simp add: digits_large)
  qed
qed

lemma natValue_snoc: "natValue (s @ [c]) = 10 * natValue s + digitValue c"
  by (simp add: natValue_def)

lemma natValue_digits: "natValue (digits n) = n"
proof (induction n rule: digits.induct)
  case (1 n)
  show ?case
  proof (cases "n < 10")
    case True
    with digit_cases [of n] show ?thesis by (simp add: digits_small natValue_def)
  next
    case False
    have "digitValue (digit (n mod 10)) = n mod 10"
      using digit_cases [of "n mod 10"] by simp
    with 1 False show ?thesis by (simp add: digits_large natValue_snoc)
  qed
qed

lemma digits_no_sign: "hd (digits n) \<noteq> CHR ''-''"
proof -
  have "hd (digits n) \<in> set (digits n)" by (simp add: digits_nonempty)
  with digits_chars [of n] have "hd (digits n) \<in> set ''0123456789''" by blast
  then show ?thesis by auto
qed

lemma decimalValue_unsigned:
  assumes "s \<noteq> []" and "hd s \<noteq> CHR ''-''"
  shows "decimalValue s = int (natValue s)"
  using assms by (cases s) (simp_all add: decimalValue_def)

lemma decimalValue_Itoa: "decimalValue (Itoa v) = v"
proof (cases "v < 0")
  case True
  then show ?thesis by (simp add: Itoa_def decimalValue_def natValue_digits)
next
  case False
  then have "decimalValue (Itoa v) = decimalValue (digits (nat v))"
    by (simp add: Itoa_def)
  also have "\<dots> = int (natValue (digits (nat v)))"
    by (rule decimalValue_unsigned) (rule digits_nonempty, rule digits_no_sign)
  also have "\<dots> = v"
    using False by (simp add: natValue_digits)
  finally show ?thesis .
qed

lemma Itoa_inject:
  assumes "Itoa v = Itoa w"
  shows "v = w"
proof -
  have "v = decimalValue (Itoa v)" by (rule decimalValue_Itoa [symmetric])
  also have "\<dots> = decimalValue (Itoa w)" by (simp only: assms)
  also have "\<dots> = w" by (rule decimalValue_Itoa)
  finally show ?thesis .
qed

subsection \<open>SetVolume\<close>

text \<open>
  C8. For every integer, \<open>SetVolume\<close> makes one call, the action \<open>SetVolume\<close> of the
  rendering-control service with instance \<open>0\<close>, channel \<open>Master\<close> and the integer in
  decimal as the desired volume; the integer is neither checked nor clamped (the
  string sent denotes it exactly), and the operation fails only if the call does.
\<close>

theorem SetVolume_passthrough:
  assumes "FindService (dev d) URN_RenderingControl_1 = s # rest"
  shows "SetVolume e d ctx v =
           ((case PerformActionCtx e ctx (NewSOAPClient s) URN_RenderingControl_1 ''SetVolume''
                    [(''InstanceID'', ''0''), (''Channel'', ''Master''),
                     (''DesiredVolume'', Itoa v)] of
               Inl m \<Rightarrow> Inl (Wrap ''setting volume'' (External m))
             | Inr out \<Rightarrow> Inr ()),
            [Action ctx (NewSOAPClient s) URN_RenderingControl_1 ''SetVolume''
               [(''InstanceID'', ''0''), (''Channel'', ''Master''), (''DesiredVolume'', Itoa v)]])
         \<and> decimalValue (Itoa v) = v"
  using assms by (simp add: SetVolume_def wrapped_resolved decimalValue_Itoa)

lemma Itoa_examples:
  "Itoa 250 = ''250''" "Itoa (- 5) = ''-5''" "Itoa 0 = ''0''"
  by (simp_all add: Itoa_def digits.simps digit_def)

theorem SetVolume_passthrough_witness:
  "SetVolume household \<lparr>dev = player\<rparr> Live 250 =
     (Inr (),
      [Action Live (NewSOAPClient (svc ''10.0.0.2'' URN_RenderingControl_1))
         URN_RenderingControl_1 ''SetVolume''
         [(''InstanceID'', ''0''), (''Channel'', ''Master''), (''DesiredVolume'', ''250'')]])
   \<and> decimalValue ''250'' = 250"
proof -
  have f: "FindService (dev \<lparr>dev = player\<rparr>) URN_RenderingControl_1 =
             svc ''10.0.0.2'' URN_RenderingControl_1 # []"
    by (simp add: FindService_def device_defs urn_defs)
  from SetVolume_passthrough [OF f, of household Live 250] show ?thesis
    by (simp add: household_def Itoa_examples)
qed

subsection \<open>SetSleepTimer\<close>

lemma quo_nonneg: "0 \<le> a \<Longrightarrow> 0 < b \<Longrightarrow> quo a b = a div b"
  by (cases "a = 0") (simp_all add: quo_def)

lemma Second_pos: "0 < Second" by (simp add: Second_def)
lemma Minute_pos: "0 < Minute" by (simp add: Minute_def Second_def)
lemma Hour_pos: "0 < Hour" by (simp add: Hour_def Minute_def Second_def)

lemma div_of_mod_mult:
  fixes a b :: int
  assumes "0 < b"
  shows "a mod (60 * b) div b = a div b mod 60"
proof -
  have "a mod (b * 60) = b * (a div b mod 60) + a mod b"
    by (rule zmod_zmult2_eq) simp
  then have "a mod (60 * b) div b = (b * (a div b mod 60) + a mod b) div b"
    by (simp add: mult.commute)
  also have "\<dots> = a div b mod 60"
    using assms by simp
  finally show ?thesis .
qed

lemma sleepTimer_parts:
  assumes "0 < d"
  shows "quo d Hour = d div Hour"
    and "d - quo d Hour * Hour = d mod Hour"
    and "quo (d mod Hour) Minute = d div Minute mod 60"
    and "d mod Hour - (d div Minute mod 60) * Minute = d mod Minute"
    and "quo (d mod Minute) Second = d div Second mod 60"
proof -
  show h: "quo d Hour = d div Hour"
    using assms Hour_pos by (simp add: quo_nonneg)
  show "d - quo d Hour * Hour = d mod Hour"
    unfolding h by (simp add: minus_div_mult_eq_mod)
  have m: "d mod Hour div Minute = d div Minute mod 60"
    unfolding Hour_def using Minute_pos by (rule div_of_mod_mult)
  show "quo (d mod Hour) Minute = d div Minute mod 60"
    using Hour_pos Minute_pos by (simp add: quo_nonneg m)
  have "d mod Hour - (d mod Hour div Minute) * Minute = d mod Hour mod Minute"
    by (simp add: minus_div_mult_eq_mod)
  also have "\<dots> = d mod Minute"
    by (rule mod_mod_cancel) (simp add: Hour_def)
  finally show "d mod Hour - (d div Minute mod 60) * Minute = d mod Minute"
    by (simp add: m)
  have "d mod Minute div Second = d div Second mod 60"
    unfolding Minute_def using Second_pos by (rule div_of_mod_mult)
  then show "quo (d mod Minute) Second = d div Second mod 60"
    using Minute_pos Second_pos by (simp add: quo_nonneg)
qed

lemma sleepTimerDuration_pos:
  assumes "0 < d"
  shows "sleepTimerDuration d =
           fmt_02d (d div Hour) @ '':'' @ fmt_02d (d div Minute mod 60) @ '':'' @
           fmt_02d (d div Second mod 60)"
proof -
  note p = sleepTimer_parts [OF assms]
  have "sleepTimerDuration d =
          fmt_02d (quo d Hour) @ '':'' @
          fmt_02d (quo (d - quo d Hour * Hour) Minute) @ '':'' @
          fmt_02d (quo (d - quo d Hour * Hour - quo (d - quo d Hour * Hour) Minute * Minute)
                     Second)"
    using assms by (simp add: sleepTimerDuration_def Let_def)
  also have "d - quo d Hour * Hour = d mod Hour" by (rule p(2))
  also have "quo (d mod Hour) Minute = d div Minute mod 60" by (rule p(3))
  also have "d mod Hour - d div Minute mod 60 * Minute = d mod Minute" by (rule p(4))
  also have "quo (d mod Minute) Second = d div Second mod 60" by (rule p(5))
  also have "quo d Hour = d div Hour" by (rule p(1))
  finally show ?thesis .
qed

text \<open>In the positive branch the values that the code holds in \<^verbatim>\<open>int64\<close> variables
  (the three quotients, the two products and the two differences) lie between 0
  and the duration given: no operation wraps around.\<close>

lemma div_mod_bounds:
  fixes a b :: int
  assumes "0 \<le> a" "0 < b"
  shows "0 \<le> a div b" "a div b \<le> a" "0 \<le> a div b * b" "a div b * b \<le> a"
    "0 \<le> a mod b" "a mod b \<le> a"
proof -
  from assms show 1: "0 \<le> a div b" by (simp add: pos_imp_zdiv_nonneg_iff)
  from assms show 2: "0 \<le> a mod b" by simp
  have 3: "a = a div b * b + a mod b" by simp
  from assms 1 have 4: "a div b * 1 \<le> a div b * b" by (intro mult_left_mono) auto
  from 2 3 show 5: "a div b * b \<le> a" by linarith
  from 1 assms show 6: "0 \<le> a div b * b" by simp
  from 6 3 show "a mod b \<le> a" by linarith
  from 4 5 show "a div b \<le> a" by simp
qed

lemma sleepTimer_no_overflow:
  assumes "0 < d"
  defines "hh \<equiv> quo d Hour"
  defines "d1 \<equiv> d - hh * Hour"
  defines "mm \<equiv> quo d1 Minute"
  defines "d2 \<equiv> d1 - mm * Minute"
  defines "ss \<equiv> quo d2 Second"
  shows "{hh, hh * Hour, d1, mm, mm * Minute, d2, ss} \<subseteq> {0..d}"
proof -
  have d: "0 \<le> d" using assms(1) by simp
  have hh: "hh = d div Hour"
    unfolding hh_def using d Hour_pos by (simp add: quo_nonneg)
  have d1: "d1 = d mod Hour"
    unfolding d1_def hh by (simp add: minus_div_mult_eq_mod)
  note H = div_mod_bounds [OF d Hour_pos]
  have d1_0: "0 \<le> d1" using H(5) d1 by simp
  have mm: "mm = d1 div Minute"
    unfolding mm_def using d1_0 Minute_pos by (simp add: quo_nonneg)
  have d2: "d2 = d1 mod Minute"
    unfolding d2_def mm by (simp add: minus_div_mult_eq_mod)
  note M = div_mod_bounds [OF d1_0 Minute_pos]
  have d2_0: "0 \<le> d2" using M(5) d2 by simp
  have ss: "ss = d2 div Second"
    unfolding ss_def using d2_0 Second_pos by (simp add: quo_nonneg)
  note S = div_mod_bounds [OF d2_0 Second_pos]
  have d1_le: "d1 \<le> d" using H(6) d1 by simp
  have d2_le: "d2 \<le> d" using M(6) d2 d1_le by simp
  have "0 \<le> hh" "hh \<le> d" "0 \<le> hh * Hour" "hh * Hour \<le> d"
    using H hh by simp_all
  moreover have "0 \<le> mm" "mm \<le> d" "0 \<le> mm * Minute" "mm * Minute \<le> d"
    using M mm d1_le by simp_all
  moreover have "0 \<le> ss" "ss \<le> d"
    using S ss d2_le by simp_all
  ultimately show ?thesis
    using d1_0 d1_le d2_0 d2_le by simp
qed

lemma fmt_02d_two_digits:
  assumes "0 \<le> n" "n < 100"
  shows "fmt_02d n = [digit (nat n div 10), digit (nat n mod 10)]"
proof (cases "n < 10")
  case True
  with assms have "digits (nat \<bar>n\<bar>) = [digit (nat n)]"
    by (simp add: digits_small)
  moreover from True assms have "nat n div 10 = 0" "nat n mod 10 = nat n" by simp_all
  ultimately show ?thesis
    using assms by (simp add: fmt_02d_def Let_def numeral_2_eq_2 digit_def)
next
  case False
  with assms have "digits (nat \<bar>n\<bar>) = [digit (nat n div 10), digit (nat n mod 10)]"
    by (simp add: digits_two)
  then show ?thesis
    using assms by (simp add: fmt_02d_def Let_def)
qed

lemma fmt_02d_examples:
  "fmt_02d 0 = ''00''" "fmt_02d 1 = ''01''" "fmt_02d 2 = ''02''" "fmt_02d 3 = ''03''"
  "fmt_02d 30 = ''30''"
  by (simp_all add: fmt_02d_two_digits digit_def)

lemma sleepTimerDuration_examples:
  "sleepTimerDuration 0 = []"
  "sleepTimerDuration (Hour + 2 * Minute + 3 * Second) = ''01:02:03''"
  "sleepTimerDuration (90 * Second) = ''00:01:30''"
  "sleepTimerDuration (Hour + 2 * Minute + 3 * Second + 999999999) = ''01:02:03''"
proof -
  show "sleepTimerDuration 0 = []"
    by (simp add: sleepTimerDuration_def)
  have a: "(Hour + 2 * Minute + 3 * Second) div Hour = 1"
    "(Hour + 2 * Minute + 3 * Second) div Minute mod 60 = 2"
    "(Hour + 2 * Minute + 3 * Second) div Second mod 60 = 3"
    by (simp_all add: Hour_def Minute_def Second_def)
  have "0 < Hour + 2 * Minute + 3 * Second"
    by (simp add: Hour_def Minute_def Second_def)
  from sleepTimerDuration_pos [OF this]
  show "sleepTimerDuration (Hour + 2 * Minute + 3 * Second) = ''01:02:03''"
    unfolding a by (simp add: fmt_02d_examples)
  have b: "(90 * Second) div Hour = 0" "(90 * Second) div Minute mod 60 = 1"
    "(90 * Second) div Second mod 60 = 30"
    by (simp_all add: Hour_def Minute_def Second_def)
  have "0 < 90 * Second" by (simp add: Second_def)
  from sleepTimerDuration_pos [OF this]
  show "sleepTimerDuration (90 * Second) = ''00:01:30''"
    unfolding b by (simp add: fmt_02d_examples)
  have c: "(Hour + 2 * Minute + 3 * Second + 999999999) div Hour = 1"
    "(Hour + 2 * Minute + 3 * Second + 999999999) div Minute mod 60 = 2"
    "(Hour + 2 * Minute + 3 * Second + 999999999) div Second mod 60 = 3"
    by (simp_all add: Hour_def Minute_def Second_def)
  have "0 < Hour + 2 * Minute + 3 * Second + 999999999"
    by (simp add: Hour_def Minute_def Second_def)
  from sleepTimerDuration_pos [OF this]
  show "sleepTimerDuration (Hour + 2 * Minute + 3 * Second + 999999999) = ''01:02:03''"
    unfolding c by (simp add: fmt_02d_examples)
qed

lemma whole_seconds:
  assumes "0 \<le> d"
  shows "d div Second = 3600 * (d div Hour) + 60 * (d div Minute mod 60) + d div Second mod 60"
proof -
  define T where "T = d div Second"
  have m: "d div Minute = T div 60"
    unfolding T_def Minute_def by (simp add: zdiv_zmult2_eq mult.commute)
  have "d div Hour = d div Minute div 60"
    unfolding Hour_def by (simp add: zdiv_zmult2_eq mult.commute)
  with m have h: "d div Hour = T div 60 div 60" by simp
  have "T = 3600 * (T div 60 div 60) + 60 * (T div 60 mod 60) + T mod 60"
    by presburger
  with m h show ?thesis by (simp add: T_def)
qed

text \<open>
  C3. The duration string of \<open>SetSleepTimer\<close>: empty for a duration of zero or less;
  for a positive duration the whole hours, the minutes and the seconds, each printed
  with \<^verbatim>\<open>%02d\<close> (two digits, zero-padded, for values below 100) and joined by
  colons. The three numbers recompose to the whole seconds of the duration, so the
  part below a second is cut off and nothing is rounded. The three values named in
  the specification come out as stated, and the string is what the request carries.
\<close>

theorem SetSleepTimer_encoding:
  "sleepTimerDuration d =
     (if d \<le> 0 then []
      else fmt_02d (d div Hour) @ '':'' @ fmt_02d (d div Minute mod 60) @ '':'' @
           fmt_02d (d div Second mod 60))
   \<and> (0 < d \<longrightarrow>
        d div Second = 3600 * (d div Hour) + 60 * (d div Minute mod 60) + d div Second mod 60
        \<and> 0 \<le> d div Hour
        \<and> 0 \<le> d div Minute mod 60 \<and> d div Minute mod 60 < 60
        \<and> 0 \<le> d div Second mod 60 \<and> d div Second mod 60 < 60)
   \<and> (\<forall>n. 0 \<le> n \<and> n < 100 \<longrightarrow> fmt_02d n = [digit (nat n div 10), digit (nat n mod 10)])
   \<and> sleepTimerDuration 0 = []
   \<and> sleepTimerDuration (Hour + 2 * Minute + 3 * Second) = ''01:02:03''
   \<and> sleepTimerDuration (90 * Second) = ''00:01:30''
   \<and> snd (SetSleepTimer e h ctx d) =
       (case FindService (dev h) URN_AVTransport_1 of
          [] \<Rightarrow> []
        | s # rest \<Rightarrow>
            [Action ctx (NewSOAPClient s) URN_AVTransport_1 ''ConfigureSleepTimer''
               [(''InstanceID'', ''0''), (''NewSleepTimerDuration'', sleepTimerDuration d)]])"
proof (intro conjI)
  show "sleepTimerDuration d =
     (if d \<le> 0 then []
      else fmt_02d (d div Hour) @ '':'' @ fmt_02d (d div Minute mod 60) @ '':'' @
           fmt_02d (d div Second mod 60))"
  proof (cases "d \<le> 0")
    case True
    then show ?thesis by (simp add: sleepTimerDuration_def)
  next
    case False
    then have "0 < d" by simp
    from sleepTimerDuration_pos [OF this] False show ?thesis by simp
  qed
  show "0 < d \<longrightarrow>
        d div Second = 3600 * (d div Hour) + 60 * (d div Minute mod 60) + d div Second mod 60
        \<and> 0 \<le> d div Hour
        \<and> 0 \<le> d div Minute mod 60 \<and> d div Minute mod 60 < 60
        \<and> 0 \<le> d div Second mod 60 \<and> d div Second mod 60 < 60"
    using whole_seconds [of d] Hour_pos by (simp add: pos_imp_zdiv_nonneg_iff)
  show "\<forall>n. 0 \<le> n \<and> n < 100 \<longrightarrow> fmt_02d n = [digit (nat n div 10), digit (nat n mod 10)]"
    by (simp add: fmt_02d_two_digits)
  show "sleepTimerDuration 0 = []"
    by (rule sleepTimerDuration_examples)
  show "sleepTimerDuration (Hour + 2 * Minute + 3 * Second) = ''01:02:03''"
    by (rule sleepTimerDuration_examples)
  show "sleepTimerDuration (90 * Second) = ''00:01:30''"
    by (rule sleepTimerDuration_examples)
  show "snd (SetSleepTimer e h ctx d) =
       (case FindService (dev h) URN_AVTransport_1 of
          [] \<Rightarrow> []
        | s # rest \<Rightarrow>
            [Action ctx (NewSOAPClient s) URN_AVTransport_1 ''ConfigureSleepTimer''
               [(''InstanceID'', ''0''), (''NewSleepTimerDuration'', sleepTimerDuration d)]])"
    by (cases "FindService (dev h) URN_AVTransport_1")
       (simp_all add: SetSleepTimer_def wrapped_resolved wrapped_unresolved)
qed

theorem SetSleepTimer_encoding_witness:
  "sleepTimerDuration (Hour + 2 * Minute + 3 * Second + 999999999) = ''01:02:03''
   \<and> sleepTimerDuration (- 5) = []
   \<and> fmt_02d 7 = ''07''
   \<and> snd (SetSleepTimer household \<lparr>dev = player\<rparr> Live (90 * Second)) =
       [Action Live (NewSOAPClient (svc ''10.0.0.2'' URN_AVTransport_1)) URN_AVTransport_1
          ''ConfigureSleepTimer''
          [(''InstanceID'', ''0''), (''NewSleepTimerDuration'', ''00:01:30'')]]"
proof -
  let ?d = "Hour + 2 * Minute + 3 * Second + 999999999"
  note T = SetSleepTimer_encoding
  have pad: "fmt_02d n = [digit (nat n div 10), digit (nat n mod 10)]" if "0 \<le> n" "n < 100" for n
    using T that by blast
  have c: "?d div Hour = 1" "?d div Minute mod 60 = 2" "?d div Second mod 60 = 3" "\<not> ?d \<le> 0"
    by (simp_all add: Hour_def Minute_def Second_def)
  have p: "fmt_02d 1 = ''01''" "fmt_02d 2 = ''02''" "fmt_02d 3 = ''03''" "fmt_02d 7 = ''07''"
    by (simp_all add: pad digit_def)
  from T [of ?d] have "sleepTimerDuration ?d =
      fmt_02d (?d div Hour) @ '':'' @ fmt_02d (?d div Minute mod 60) @ '':'' @
      fmt_02d (?d div Second mod 60)"
    using c(4) by simp
  then have 1: "sleepTimerDuration ?d = ''01:02:03''"
    unfolding c(1-3) p by simp
  from T [of "- 5"] have 2: "sleepTimerDuration (- 5) = []" by simp
  have f: "FindService (dev \<lparr>dev = player\<rparr>) URN_AVTransport_1 =
             svc ''10.0.0.2'' URN_AVTransport_1 # []"
    by (simp add: FindService_def device_defs urn_defs)
  note T90 = T [of "90 * Second" household "\<lparr>dev = player\<rparr>" Live]
  have ex: "sleepTimerDuration (90 * Second) = ''00:01:30''"
    using T90 by (elim conjE)
  have "snd (SetSleepTimer household \<lparr>dev = player\<rparr> Live (90 * Second)) =
       (case FindService (dev \<lparr>dev = player\<rparr>) URN_AVTransport_1 of
          [] \<Rightarrow> []
        | s # rest \<Rightarrow>
            [Action Live (NewSOAPClient s) URN_AVTransport_1 ''ConfigureSleepTimer''
               [(''InstanceID'', ''0''),
                (''NewSleepTimerDuration'', sleepTimerDuration (90 * Second))]])"
    using T90 by (elim conjE)
  then have 3: "snd (SetSleepTimer household \<lparr>dev = player\<rparr> Live (90 * Second)) =
       [Action Live (NewSOAPClient (svc ''10.0.0.2'' URN_AVTransport_1)) URN_AVTransport_1
          ''ConfigureSleepTimer''
          [(''InstanceID'', ''0''), (''NewSleepTimerDuration'', ''00:01:30'')]]"
    unfolding f ex by simp
  from 1 2 p(4) 3 show ?thesis by simp
qed

subsection \<open>LoadSonosPlaylist\<close>

lemma scanURI_first:
  "(\<forall>x\<in>set pre. Title x \<noteq> name) \<Longrightarrow> Title c = name
   \<Longrightarrow> scanURI (pre @ c # post) name = Res c"
  by (induction pre) auto

lemma scanURI_none:
  "(\<forall>x\<in>set cs. Title x \<noteq> name) \<Longrightarrow> scanURI cs name = []"
  by (induction cs) auto

text \<open>The operation once \<^verbatim>\<open>Browse\<close> has answered.\<close>

lemma LoadSonosPlaylist_browsed:
  assumes cd: "FindService (dev d) URN_ContentDirectory_1 = s1 # r1"
      and br: "PerformActionCtx e ctx (NewSOAPClient s1) URN_ContentDirectory_1 ''Browse''
                 browseRequest = Inr raw"
  shows "LoadSonosPlaylist e d ctx name =
     (if scanURI (fst (xmlUnmarshal e (field raw ''Result''))) name = []
      then (Inl (PlaylistNotFound name (length (fst (xmlUnmarshal e (field raw ''Result''))))),
            [Action ctx (NewSOAPClient s1) URN_ContentDirectory_1 ''Browse'' browseRequest])
      else
        (case soap e d ctx URN_AVTransport_1 ''AddURIToQueue''
                (addURIRequest (scanURI (fst (xmlUnmarshal e (field raw ''Result''))) name)) of
           (Inl err, tr) \<Rightarrow>
             (Inl (Wrap ''adding to queue'' err),
              Action ctx (NewSOAPClient s1) URN_ContentDirectory_1 ''Browse'' browseRequest # tr)
         | (Inr resp, tr) \<Rightarrow>
             (Inr (),
              Action ctx (NewSOAPClient s1) URN_ContentDirectory_1 ''Browse'' browseRequest # tr)))"
proof -
  have "soap e d ctx URN_ContentDirectory_1 ''Browse'' browseRequest =
          (Inr raw, [Action ctx (NewSOAPClient s1) URN_ContentDirectory_1 ''Browse'' browseRequest])"
    using br by (simp add: soap_resolved [OF cd])
  then show ?thesis
    by (simp add: LoadSonosPlaylist_def Let_def split: prod.splits sum.splits)
qed

lemma LoadSonosPlaylist_not_found:
  assumes cd: "FindService (dev d) URN_ContentDirectory_1 = s1 # r1"
      and br: "PerformActionCtx e ctx (NewSOAPClient s1) URN_ContentDirectory_1 ''Browse''
                 browseRequest = Inr raw"
      and "scanURI (fst (xmlUnmarshal e (field raw ''Result''))) name = []"
  shows "LoadSonosPlaylist e d ctx name =
     (Inl (PlaylistNotFound name (length (fst (xmlUnmarshal e (field raw ''Result''))))),
      [Action ctx (NewSOAPClient s1) URN_ContentDirectory_1 ''Browse'' browseRequest])"
  using assms(3) by (simp add: LoadSonosPlaylist_browsed [OF cd br])

lemma LoadSonosPlaylist_found:
  assumes cd: "FindService (dev d) URN_ContentDirectory_1 = s1 # r1"
      and br: "PerformActionCtx e ctx (NewSOAPClient s1) URN_ContentDirectory_1 ''Browse''
                 browseRequest = Inr raw"
      and avt: "FindService (dev d) URN_AVTransport_1 = s2 # r2"
      and uri: "scanURI (fst (xmlUnmarshal e (field raw ''Result''))) name = uri" "uri \<noteq> []"
  shows "LoadSonosPlaylist e d ctx name =
     ((case PerformActionCtx e ctx (NewSOAPClient s2) URN_AVTransport_1 ''AddURIToQueue''
              (addURIRequest uri) of
         Inl m \<Rightarrow> Inl (Wrap ''adding to queue'' (External m))
       | Inr out \<Rightarrow> Inr ()),
      [Action ctx (NewSOAPClient s1) URN_ContentDirectory_1 ''Browse'' browseRequest,
       Action ctx (NewSOAPClient s2) URN_AVTransport_1 ''AddURIToQueue'' (addURIRequest uri)])"
  using uri
  by (simp add: LoadSonosPlaylist_browsed [OF cd br] soap_resolved [OF avt] split: sum.splits)

text \<open>
  C2, as the code has it. After a \<^verbatim>\<open>Browse\<close> that answered, on a device with the
  AVTransport service: the listing is scanned in order for the first entry whose
  title is the requested name, compared as it stands. If that entry has a
  resource locator, the operation calls \<^verbatim>\<open>AddURIToQueue\<close> once, with that locator,
  and makes no other call after the \<^verbatim>\<open>Browse\<close>. If no entry has the title, or the
  first that has it carries an empty locator, the operation makes no further call
  and fails with the not-found error, which carries the length of the listing.
\<close>

theorem LoadSonosPlaylist_scan:
  assumes cd: "FindService (dev d) URN_ContentDirectory_1 = s1 # r1"
      and br: "PerformActionCtx e ctx (NewSOAPClient s1) URN_ContentDirectory_1 ''Browse''
                 browseRequest = Inr raw"
      and avt: "FindService (dev d) URN_AVTransport_1 = s2 # r2"
      and listing: "fst (xmlUnmarshal e (field raw ''Result'')) = listing"
  shows "(\<forall>pre c post.
            listing = pre @ c # post \<and> (\<forall>x\<in>set pre. Title x \<noteq> name) \<and> Title c = name
            \<and> Res c \<noteq> []
            \<longrightarrow> LoadSonosPlaylist e d ctx name =
                  ((case PerformActionCtx e ctx (NewSOAPClient s2) URN_AVTransport_1
                           ''AddURIToQueue'' (addURIRequest (Res c)) of
                      Inl m \<Rightarrow> Inl (Wrap ''adding to queue'' (External m))
                    | Inr out \<Rightarrow> Inr ()),
                   [Action ctx (NewSOAPClient s1) URN_ContentDirectory_1 ''Browse'' browseRequest,
                    Action ctx (NewSOAPClient s2) URN_AVTransport_1 ''AddURIToQueue''
                      (addURIRequest (Res c))]))
       \<and> (\<forall>pre c post.
            listing = pre @ c # post \<and> (\<forall>x\<in>set pre. Title x \<noteq> name) \<and> Title c = name
            \<and> Res c = []
            \<longrightarrow> LoadSonosPlaylist e d ctx name =
                  (Inl (PlaylistNotFound name (length listing)),
                   [Action ctx (NewSOAPClient s1) URN_ContentDirectory_1 ''Browse'' browseRequest]))
       \<and> ((\<forall>x\<in>set listing. Title x \<noteq> name)
            \<longrightarrow> LoadSonosPlaylist e d ctx name =
                  (Inl (PlaylistNotFound name (length listing)),
                   [Action ctx (NewSOAPClient s1) URN_ContentDirectory_1 ''Browse'' browseRequest]))"
proof (intro conjI allI impI)
  fix pre c post
  assume h: "listing = pre @ c # post \<and> (\<forall>x\<in>set pre. Title x \<noteq> name) \<and> Title c = name
             \<and> Res c \<noteq> []"
  then have "scanURI listing name = Res c" by (simp add: scanURI_first)
  with h listing show "LoadSonosPlaylist e d ctx name =
                  ((case PerformActionCtx e ctx (NewSOAPClient s2) URN_AVTransport_1
                           ''AddURIToQueue'' (addURIRequest (Res c)) of
                      Inl m \<Rightarrow> Inl (Wrap ''adding to queue'' (External m))
                    | Inr out \<Rightarrow> Inr ()),
                   [Action ctx (NewSOAPClient s1) URN_ContentDirectory_1 ''Browse'' browseRequest,
                    Action ctx (NewSOAPClient s2) URN_AVTransport_1 ''AddURIToQueue''
                      (addURIRequest (Res c))])"
    by (intro LoadSonosPlaylist_found [OF cd br avt]) simp_all
next
  fix pre c post
  assume h: "listing = pre @ c # post \<and> (\<forall>x\<in>set pre. Title x \<noteq> name) \<and> Title c = name
             \<and> Res c = []"
  then have "scanURI listing name = []" by (simp add: scanURI_first)
  with listing LoadSonosPlaylist_not_found [OF cd br, of name]
  show "LoadSonosPlaylist e d ctx name =
                  (Inl (PlaylistNotFound name (length listing)),
                   [Action ctx (NewSOAPClient s1) URN_ContentDirectory_1 ''Browse'' browseRequest])"
    by simp
next
  assume "\<forall>x\<in>set listing. Title x \<noteq> name"
  then have "scanURI listing name = []" by (rule scanURI_none)
  with listing LoadSonosPlaylist_not_found [OF cd br, of name]
  show "LoadSonosPlaylist e d ctx name =
                  (Inl (PlaylistNotFound name (length listing)),
                   [Action ctx (NewSOAPClient s1) URN_ContentDirectory_1 ''Browse'' browseRequest])"
    by simp
qed

lemma household_browse:
  "PerformActionCtx household Live (NewSOAPClient (svc ''10.0.0.2'' URN_ContentDirectory_1))
     URN_ContentDirectory_1 ''Browse'' browseRequest = Inr [(''Result'', wholeDoc)]"
  "PerformActionCtx household Live (NewSOAPClient (svc ''10.0.0.6'' URN_ContentDirectory_1))
     URN_ContentDirectory_1 ''Browse'' browseRequest = Inr [(''Result'', cutDoc)]"
  by (simp_all add: household_def NewSOAPClient_def svc_def)

lemma household_add:
  "PerformActionCtx household Live sc URN_AVTransport_1 ''AddURIToQueue'' inp = Inr []"
  by (simp add: household_def)

lemma household_unmarshal:
  "xmlUnmarshal household wholeDoc = ([jazz, morning, draft], None)"
  "xmlUnmarshal household cutDoc =
     ([jazz], Some ''XML syntax error on line 1: unexpected EOF'')"
  "xmlUnmarshal household [] = ([], Some ''EOF'')"
  by (simp_all add: household_def wholeDoc_def cutDoc_def)

lemma household_services:
  "FindService (dev \<lparr>dev = player\<rparr>) URN_ContentDirectory_1 =
     svc ''10.0.0.2'' URN_ContentDirectory_1 # []"
  "FindService (dev \<lparr>dev = player\<rparr>) URN_AVTransport_1 =
     svc ''10.0.0.2'' URN_AVTransport_1 # []"
  "FindService (dev \<lparr>dev = den\<rparr>) URN_ContentDirectory_1 =
     svc ''10.0.0.6'' URN_ContentDirectory_1 # []"
  "FindService (dev \<lparr>dev = den\<rparr>) URN_AVTransport_1 =
     svc ''10.0.0.6'' URN_AVTransport_1 # []"
  by (simp_all add: FindService_def device_defs urn_defs)

theorem LoadSonosPlaylist_scan_witness:
  "LoadSonosPlaylist household \<lparr>dev = player\<rparr> Live ''Morning'' =
     (Inr (),
      [Action Live (NewSOAPClient (svc ''10.0.0.2'' URN_ContentDirectory_1))
         URN_ContentDirectory_1 ''Browse'' browseRequest,
       Action Live (NewSOAPClient (svc ''10.0.0.2'' URN_AVTransport_1))
         URN_AVTransport_1 ''AddURIToQueue''
         (addURIRequest ''file:///jffs/settings/savedqueues.rsq#2'')])
   \<and> LoadSonosPlaylist household \<lparr>dev = player\<rparr> Live ''morning'' =
       (Inl (PlaylistNotFound ''morning'' 3),
        [Action Live (NewSOAPClient (svc ''10.0.0.2'' URN_ContentDirectory_1))
           URN_ContentDirectory_1 ''Browse'' browseRequest])
   \<and> LoadSonosPlaylist household \<lparr>dev = player\<rparr> Live ''Draft'' =
       (Inl (PlaylistNotFound ''Draft'' 3),
        [Action Live (NewSOAPClient (svc ''10.0.0.2'' URN_ContentDirectory_1))
           URN_ContentDirectory_1 ''Browse'' browseRequest])"
proof -
  have listing: "fst (xmlUnmarshal household (field [(''Result'', wholeDoc)] ''Result'')) =
                  [jazz, morning, draft]"
    by (simp add: field_def household_unmarshal)
  note T = LoadSonosPlaylist_scan
             [OF household_services(1) household_browse(1) household_services(2) listing]
  note found = T [THEN conjunct1, rule_format]
  note blank = T [THEN conjunct2, THEN conjunct1, rule_format]
  note absent = T [THEN conjunct2, THEN conjunct2, rule_format]
  have len: "length [jazz, morning, draft] = 3" by simp
  have "LoadSonosPlaylist household \<lparr>dev = player\<rparr> Live ''Morning'' =
     ((case PerformActionCtx household Live (NewSOAPClient (svc ''10.0.0.2'' URN_AVTransport_1))
              URN_AVTransport_1 ''AddURIToQueue'' (addURIRequest (Res morning)) of
         Inl m \<Rightarrow> Inl (Wrap ''adding to queue'' (External m))
       | Inr out \<Rightarrow> Inr ()),
      [Action Live (NewSOAPClient (svc ''10.0.0.2'' URN_ContentDirectory_1))
         URN_ContentDirectory_1 ''Browse'' browseRequest,
       Action Live (NewSOAPClient (svc ''10.0.0.2'' URN_AVTransport_1))
         URN_AVTransport_1 ''AddURIToQueue'' (addURIRequest (Res morning))])"
    by (rule found [where pre = "[jazz]" and c = morning and post = "[draft]"])
       (simp add: jazz_def morning_def)
  then have 1:
    "LoadSonosPlaylist household \<lparr>dev = player\<rparr> Live ''Morning'' =
     (Inr (),
      [Action Live (NewSOAPClient (svc ''10.0.0.2'' URN_ContentDirectory_1))
         URN_ContentDirectory_1 ''Browse'' browseRequest,
       Action Live (NewSOAPClient (svc ''10.0.0.2'' URN_AVTransport_1))
         URN_AVTransport_1 ''AddURIToQueue''
         (addURIRequest ''file:///jffs/settings/savedqueues.rsq#2'')])"
    unfolding household_add by (simp add: morning_def)
  have "LoadSonosPlaylist household \<lparr>dev = player\<rparr> Live ''morning'' =
       (Inl (PlaylistNotFound ''morning'' (length [jazz, morning, draft])),
        [Action Live (NewSOAPClient (svc ''10.0.0.2'' URN_ContentDirectory_1))
           URN_ContentDirectory_1 ''Browse'' browseRequest])"
    by (rule absent) (auto simp: jazz_def morning_def draft_def)
  then have 2:
    "LoadSonosPlaylist household \<lparr>dev = player\<rparr> Live ''morning'' =
       (Inl (PlaylistNotFound ''morning'' 3),
        [Action Live (NewSOAPClient (svc ''10.0.0.2'' URN_ContentDirectory_1))
           URN_ContentDirectory_1 ''Browse'' browseRequest])"
    unfolding len .
  have "LoadSonosPlaylist household \<lparr>dev = player\<rparr> Live ''Draft'' =
       (Inl (PlaylistNotFound ''Draft'' (length [jazz, morning, draft])),
        [Action Live (NewSOAPClient (svc ''10.0.0.2'' URN_ContentDirectory_1))
           URN_ContentDirectory_1 ''Browse'' browseRequest])"
    by (rule blank [where pre = "[jazz, morning]" and c = draft and post = "[]"])
       (simp add: jazz_def morning_def draft_def)
  then have 3:
    "LoadSonosPlaylist household \<lparr>dev = player\<rparr> Live ''Draft'' =
       (Inl (PlaylistNotFound ''Draft'' 3),
        [Action Live (NewSOAPClient (svc ''10.0.0.2'' URN_ContentDirectory_1))
           URN_ContentDirectory_1 ''Browse'' browseRequest])"
    unfolding len .
  from 1 2 3 show ?thesis by (intro conjI)
qed

text \<open>The specification's sentence fails where the first entry with the title has
  no resource locator: the third entry of the listing is titled \<open>Draft\<close>, and asking
  for \<open>Draft\<close> is answered with the not-found error and no \<^verbatim>\<open>AddURIToQueue\<close>.\<close>

theorem LoadSonosPlaylist_empty_locator:
  "fst (xmlUnmarshal household wholeDoc) = [jazz, morning, draft]
   \<and> Title draft = ''Draft'' \<and> Title jazz \<noteq> ''Draft'' \<and> Title morning \<noteq> ''Draft''
   \<and> LoadSonosPlaylist household \<lparr>dev = player\<rparr> Live ''Draft'' =
       (Inl (PlaylistNotFound ''Draft'' 3),
        [Action Live (NewSOAPClient (svc ''10.0.0.2'' URN_ContentDirectory_1))
           URN_ContentDirectory_1 ''Browse'' browseRequest])"
  by (simp add: LoadSonosPlaylist_browsed [OF household_services(1) household_browse(1)]
      field_def household_unmarshal jazz_def morning_def draft_def)

text \<open>The slip in \<open>LoadSonosPlaylist\<close>: the function has a branch that returns the
  decoder's error wrapped as \<^verbatim>\<open>"unmarshaling DIDL-Lite XML: %w"\<close>, but its test reads
  the \<^verbatim>\<open>err\<close> of \<^verbatim>\<open>Browse\<close>, which is nil there. So the branch is dead: whatever the
  decoder returns, the function goes on with the entries the decoder left behind,
  as if decoding had succeeded.\<close>

lemma LoadSonosPlaylist_unmarshal_error_dropped:
  assumes cd: "FindService (dev d) URN_ContentDirectory_1 = s1 # r1"
      and br: "PerformActionCtx e ctx (NewSOAPClient s1) URN_ContentDirectory_1 ''Browse''
                 browseRequest = Inr raw"
      and perr: "xmlUnmarshal e (field raw ''Result'') = (left, Some perr)"
  shows "LoadSonosPlaylist e d ctx name =
           LoadSonosPlaylist (e\<lparr>xmlUnmarshal := \<lambda>data. (left, None)\<rparr>) d ctx name
       \<and> (\<forall>x. fst (LoadSonosPlaylist e d ctx name) \<noteq> Inl (Wrap ''unmarshaling DIDL-Lite XML'' x))
       \<and> (left = [] \<longrightarrow>
            LoadSonosPlaylist e d ctx name =
              (Inl (PlaylistNotFound name 0),
               [Action ctx (NewSOAPClient s1) URN_ContentDirectory_1 ''Browse'' browseRequest]))"
proof (intro conjI allI impI)
  let ?e = "e\<lparr>xmlUnmarshal := \<lambda>data. (left, None)\<rparr>"
  have br': "PerformActionCtx ?e ctx (NewSOAPClient s1) URN_ContentDirectory_1 ''Browse''
               browseRequest = Inr raw"
    using br by simp
  have same: "soap ?e d ctx t a i = soap e d ctx t a i" for t a i
    by (cases "serviceClient (dev d) t") (simp_all add: soap_def)
  show "LoadSonosPlaylist e d ctx name = LoadSonosPlaylist ?e d ctx name"
    unfolding LoadSonosPlaylist_browsed [OF cd br] LoadSonosPlaylist_browsed [OF cd br'] same
    by (simp add: perr)
next
  fix x
  show "fst (LoadSonosPlaylist e d ctx name) \<noteq> Inl (Wrap ''unmarshaling DIDL-Lite XML'' x)"
    unfolding LoadSonosPlaylist_browsed [OF cd br]
    by (simp split: prod.splits sum.splits)
next
  assume "left = []"
  with perr have "scanURI (fst (xmlUnmarshal e (field raw ''Result''))) name = []"
    by simp
  from LoadSonosPlaylist_not_found [OF cd br this] perr \<open>left = []\<close>
  show "LoadSonosPlaylist e d ctx name =
              (Inl (PlaylistNotFound name 0),
               [Action ctx (NewSOAPClient s1) URN_ContentDirectory_1 ''Browse'' browseRequest])"
    by simp
qed

text \<open>
  C9. The code at a \<^verbatim>\<open>Browse\<close> result that does not parse: the document breaks off
  after one complete container. The decoder returns its error and leaves that
  container in the listing. The code does not return the unmarshaling error that
  its own branch is written for; it does not answer with count 0 either: asking
  for the entry that was decoded enqueues it and succeeds, and asking for another
  name is answered with the not-found error and count 1.
\<close>

theorem LoadSonosPlaylist_partial_listing:
  "xmlUnmarshal household cutDoc = ([jazz], Some ''XML syntax error on line 1: unexpected EOF'')
   \<and> LoadSonosPlaylist household \<lparr>dev = den\<rparr> Live ''Jazz'' =
       (Inr (),
        [Action Live (NewSOAPClient (svc ''10.0.0.6'' URN_ContentDirectory_1))
           URN_ContentDirectory_1 ''Browse'' browseRequest,
         Action Live (NewSOAPClient (svc ''10.0.0.6'' URN_AVTransport_1))
           URN_AVTransport_1 ''AddURIToQueue''
           (addURIRequest ''file:///jffs/settings/savedqueues.rsq#1'')])
   \<and> LoadSonosPlaylist household \<lparr>dev = den\<rparr> Live ''Morning'' =
       (Inl (PlaylistNotFound ''Morning'' 1),
        [Action Live (NewSOAPClient (svc ''10.0.0.6'' URN_ContentDirectory_1))
           URN_ContentDirectory_1 ''Browse'' browseRequest])"
proof (intro conjI)
  show "xmlUnmarshal household cutDoc =
          ([jazz], Some ''XML syntax error on line 1: unexpected EOF'')"
    by (rule household_unmarshal)
  have listing: "fst (xmlUnmarshal household (field [(''Result'', cutDoc)] ''Result'')) = [jazz]"
    by (simp add: field_def household_unmarshal)
  have uri: "scanURI [jazz] ''Jazz'' = ''file:///jffs/settings/savedqueues.rsq#1''"
    "scanURI [jazz] ''Morning'' = []"
    by (simp_all add: jazz_def)
  show "LoadSonosPlaylist household \<lparr>dev = den\<rparr> Live ''Jazz'' =
       (Inr (),
        [Action Live (NewSOAPClient (svc ''10.0.0.6'' URN_ContentDirectory_1))
           URN_ContentDirectory_1 ''Browse'' browseRequest,
         Action Live (NewSOAPClient (svc ''10.0.0.6'' URN_AVTransport_1))
           URN_AVTransport_1 ''AddURIToQueue''
           (addURIRequest ''file:///jffs/settings/savedqueues.rsq#1'')])"
    using LoadSonosPlaylist_found
            [OF household_services(3) household_browse(2) household_services(4),
             of "''Jazz''" "''file:///jffs/settings/savedqueues.rsq#1''"]
    unfolding listing uri household_add by simp
  show "LoadSonosPlaylist household \<lparr>dev = den\<rparr> Live ''Morning'' =
       (Inl (PlaylistNotFound ''Morning'' 1),
        [Action Live (NewSOAPClient (svc ''10.0.0.6'' URN_ContentDirectory_1))
           URN_ContentDirectory_1 ''Browse'' browseRequest])"
    using LoadSonosPlaylist_not_found
            [OF household_services(3) household_browse(2), of "''Morning''"]
    unfolding listing uri by simp
qed

subsection \<open>The context\<close>

lemma soap_events:
  "snd (soap e d ctx t a i) = [] \<or>
   (\<exists>sc. snd (soap e d ctx t a i) = [Action ctx sc t a i])"
  by (cases "FindService (dev d) t") (simp_all add: soap_resolved soap_unresolved)

lemma soap_cancelled:
  assumes "\<forall>sc t a i. \<exists>m. PerformActionCtx e Cancelled sc t a i = Inl m"
  shows "\<exists>err. fst (soap e d Cancelled t a i) = Inl err"
proof (cases "FindService (dev d) t")
  case Nil
  then show ?thesis by (simp add: soap_unresolved)
next
  case (Cons s rest)
  from assms obtain m where
    "PerformActionCtx e Cancelled (NewSOAPClient s) t a i = Inl m" by blast
  with Cons show ?thesis by (simp add: soap_resolved)
qed

lemma wrapped_fst: "fst r = Inl err \<Longrightarrow> fst (wrapped msg r) = Inl (Wrap msg err)"
  by (cases r) (simp add: wrapped_def)

lemma wrapped_snd: "snd (wrapped msg r) = snd r"
  by (cases r) (simp add: wrapped_def split: sum.splits)

text \<open>A control operation that is one wrapped call.\<close>

lemma wrapped_soap_context:
  "(\<forall>ev\<in>set (snd (wrapped msg (soap e d ctx t a i))). eventCtx ev = Some ctx)
   \<and> length (snd (wrapped msg (soap e d ctx t a i))) \<le> 1"
  using soap_events [of e d ctx t a i] by (auto simp: wrapped_snd)

lemma wrapped_soap_cancelled:
  assumes "\<forall>sc t a i. \<exists>m. PerformActionCtx e Cancelled sc t a i = Inl m"
  shows "\<exists>err. fst (wrapped msg (soap e d Cancelled t a i)) = Inl err"
  using soap_cancelled [OF assms, of d t a i] by (auto dest: wrapped_fst)

lemma LoadSonosPlaylist_context:
  "\<forall>ev\<in>set (snd (LoadSonosPlaylist e d ctx name)). eventCtx ev = Some ctx"
proof -
  have ev: "\<forall>ev\<in>set (snd (soap e d ctx t a i)). eventCtx ev = Some ctx" for t a i
    using soap_events [of e d ctx t a i] by auto
  obtain r1 tr1 where b: "soap e d ctx URN_ContentDirectory_1 ''Browse'' browseRequest = (r1, tr1)"
    by (cases "soap e d ctx URN_ContentDirectory_1 ''Browse'' browseRequest")
  from ev [of URN_ContentDirectory_1 "''Browse''" browseRequest] b
  have tr1: "\<forall>ev\<in>set tr1. eventCtx ev = Some ctx" by simp
  show ?thesis
  proof (cases r1)
    case (Inl err)
    with b tr1 show ?thesis by (simp add: LoadSonosPlaylist_def)
  next
    case (Inr raw)
    let ?uri = "scanURI (fst (xmlUnmarshal e (field raw ''Result''))) name"
    obtain r2 tr2 where a: "soap e d ctx URN_AVTransport_1 ''AddURIToQueue''
                               (addURIRequest ?uri) = (r2, tr2)"
      by (cases "soap e d ctx URN_AVTransport_1 ''AddURIToQueue'' (addURIRequest ?uri)")
    from ev [of URN_AVTransport_1 "''AddURIToQueue''" "addURIRequest ?uri"] a
    have tr2: "\<forall>ev\<in>set tr2. eventCtx ev = Some ctx" by simp
    from Inr b a tr1 tr2 show ?thesis
      by (cases r2) (auto simp: LoadSonosPlaylist_def Let_def)
  qed
qed

lemma LoadSonosPlaylist_cancelled:
  assumes "\<forall>sc t a i. \<exists>m. PerformActionCtx e Cancelled sc t a i = Inl m"
  shows "(\<exists>err. fst (LoadSonosPlaylist e d Cancelled name) = Inl err)
         \<and> length (snd (LoadSonosPlaylist e d Cancelled name)) \<le> 1"
proof -
  obtain r1 tr1 where
    b: "soap e d Cancelled URN_ContentDirectory_1 ''Browse'' browseRequest = (r1, tr1)"
    by (cases "soap e d Cancelled URN_ContentDirectory_1 ''Browse'' browseRequest")
  from soap_cancelled [OF assms, of d URN_ContentDirectory_1 "''Browse''" browseRequest] b
  obtain err where r1: "r1 = Inl err" by auto
  from soap_events [of e d Cancelled URN_ContentDirectory_1 "''Browse''" browseRequest] b
  have "length tr1 \<le> 1" by auto
  with b r1 show ?thesis by (simp add: LoadSonosPlaylist_def)
qed

lemma discoverStep_trace:
  "snd (discoverStep e ctx m (c, tr)) = tr
   \<or> (\<exists>sc t. snd (discoverStep e ctx m (c, tr)) = tr @ [Action ctx sc t ''GetZoneAttributes'' []])"
proof (cases "Err m = None \<and> Contains (Manufacturer (Root m)) ''Sonos, Inc.''")
  case False
  then show ?thesis
    using discoverStep_skip [of m e ctx "(c, tr)"] by auto
next
  case retained: True
  show ?thesis
  proof (cases "FindService (Root m) devPropertiesService")
    case Nil
    with retained show ?thesis by (simp add: discoverStep_unresolved)
  next
    case (Cons s rest)
    with retained show ?thesis
      by (cases "PerformActionCtx e ctx (NewSOAPClient s) (ServiceType s) ''GetZoneAttributes'' []")
         (simp_all add: discoverStep_failed discoverStep_joined)
  qed
qed

lemma discoverLoop_trace:
  assumes "\<forall>ev\<in>set (snd st).
             ev = Probe devPropertiesService \<or> (\<exists>sc t. ev = Action ctx sc t ''GetZoneAttributes'' [])"
  shows "\<forall>ev\<in>set (snd (discoverLoop e ctx mrds st)).
             ev = Probe devPropertiesService \<or> (\<exists>sc t. ev = Action ctx sc t ''GetZoneAttributes'' [])"
  using assms
proof (induction mrds arbitrary: st)
  case Nil
  then show ?case by simp
next
  case (Cons m mrds)
  obtain c tr where st: "st = (c, tr)" by (cases st)
  from discoverStep_trace [of e ctx m c tr] Cons.prems st
  have "\<forall>ev\<in>set (snd (discoverStep e ctx m st)).
             ev = Probe devPropertiesService \<or> (\<exists>sc t. ev = Action ctx sc t ''GetZoneAttributes'' [])"
    by auto
  from Cons.IH [OF this] show ?case by simp
qed

lemma Discover_trace:
  "\<forall>ev\<in>set (snd (Discover e ctx)).
     ev = Probe devPropertiesService \<or> (\<exists>sc t. ev = Action ctx sc t ''GetZoneAttributes'' [])"
proof (cases "DiscoverDevices e devPropertiesService")
  case (Inl msg)
  then show ?thesis by (simp add: Discover_failed)
next
  case (Inr mrds)
  have "\<forall>ev\<in>set (snd (discoverLoop e ctx mrds
                 (\<lparr>devices = [], zones = Map.empty\<rparr>, [Probe devPropertiesService]))).
     ev = Probe devPropertiesService \<or> (\<exists>sc t. ev = Action ctx sc t ''GetZoneAttributes'' [])"
    by (rule discoverLoop_trace) simp
  then show ?thesis by (simp add: Discover_ok [OF Inr])
qed

lemma Discover_cancelled_zones:
  assumes honours: "\<forall>sc t a i. \<exists>m. PerformActionCtx e Cancelled sc t a i = Inl m"
      and D: "Discover e Cancelled = (Inr c, tr)"
  shows "zones c = Map.empty"
proof -
  have step: "zones (fst (discoverStep e Cancelled m (c, tr))) = Map.empty"
    if "zones c = Map.empty" for m c tr
  proof -
    have "\<not> (\<exists>s rest resp.
             FindService (Root m) devPropertiesService = s # rest
             \<and> PerformActionCtx e Cancelled (NewSOAPClient s) (ServiceType s)
                 ''GetZoneAttributes'' [] = Inr resp)"
      using honours by (metis sum.distinct(1))
    with discoverStep_client [of e Cancelled m c tr]
    have "fst (discoverStep e Cancelled m (c, tr)) = c
          \<or> fst (discoverStep e Cancelled m (c, tr)) = c\<lparr>devices := devices c @ [Root m]\<rparr>"
      by blast
    with that show ?thesis by auto
  qed
  have "zones (fst (discoverLoop e Cancelled mrds
                      (\<lparr>devices = [], zones = Map.empty\<rparr>, tr0))) = Map.empty" for mrds tr0
    by (rule discoverLoop_invariant [where P = "\<lambda>c. zones c = Map.empty"])
       (simp_all add: step)
  with D show ?thesis by (auto elim: Discover_InrD)
qed

text \<open>
  C4, as the code has it. Every remote action is called with the context the
  caller gave: each control operation, and each zone query of \<open>Discover\<close>. Where the
  transport refuses a call made with a cancelled context, every control operation
  given a cancelled context fails, after at most one call, which carried that
  context; \<open>Discover\<close> given a cancelled context records no zone in the client it
  returns. \<open>ZoneDevice\<close> makes no call and does not look at its context. (The probe
  is outside this statement: \<open>DiscoverDevices\<close> takes no context.)
\<close>

theorem context_reaches_every_action:
  "(\<forall>r\<in>set (controlOperations e d ctx mode volume duration name).
      \<forall>ev\<in>set (snd r). eventCtx ev = Some ctx)
   \<and> (\<forall>ev\<in>set (snd (Discover e ctx)).
        ev = Probe devPropertiesService \<or> (\<exists>sc t. ev = Action ctx sc t ''GetZoneAttributes'' []))
   \<and> ZoneDevice c ctx z = ZoneDevice c Live z
   \<and> ((\<forall>sc t a i. \<exists>m. PerformActionCtx e Cancelled sc t a i = Inl m) \<longrightarrow>
        (\<forall>r\<in>set (controlOperations e d Cancelled mode volume duration name).
           (\<exists>err. fst r = Inl err) \<and> length (snd r) \<le> 1)
        \<and> (\<forall>c' tr. Discover e Cancelled = (Inr c', tr) \<longrightarrow> zones c' = Map.empty))"
proof (intro conjI impI)
  show "\<forall>r\<in>set (controlOperations e d ctx mode volume duration name).
      \<forall>ev\<in>set (snd r). eventCtx ev = Some ctx"
    unfolding controlOperations_def Ungroup_def ClearQueue_def SetPlayMode_def SetVolume_def
      SetSleepTimer_def Play_def
    using wrapped_soap_context [of _ e d ctx] LoadSonosPlaylist_context [of e d ctx name]
    by simp
  show "\<forall>ev\<in>set (snd (Discover e ctx)).
        ev = Probe devPropertiesService \<or> (\<exists>sc t. ev = Action ctx sc t ''GetZoneAttributes'' [])"
    by (rule Discover_trace)
  show "ZoneDevice c ctx z = ZoneDevice c Live z"
    by (simp add: ZoneDevice_def)
next
  assume honours: "\<forall>sc t a i. \<exists>m. PerformActionCtx e Cancelled sc t a i = Inl m"
  show "\<forall>r\<in>set (controlOperations e d Cancelled mode volume duration name).
           (\<exists>err. fst r = Inl err) \<and> length (snd r) \<le> 1"
    unfolding controlOperations_def Ungroup_def ClearQueue_def SetPlayMode_def SetVolume_def
      SetSleepTimer_def Play_def
    using wrapped_soap_context [of _ e d Cancelled] wrapped_soap_cancelled [OF honours, of _ d]
      LoadSonosPlaylist_cancelled [OF honours, of d name]
    by simp
  show "\<forall>c' tr. Discover e Cancelled = (Inr c', tr) \<longrightarrow> zones c' = Map.empty"
    using Discover_cancelled_zones [OF honours] by blast
qed

lemma household_honours:
  "\<forall>sc t a i. \<exists>m. PerformActionCtx household Cancelled sc t a i = Inl m"
  by (simp add: household_def)

theorem context_reaches_every_action_witness:
  "(\<exists>err. fst (SetVolume household \<lparr>dev = player\<rparr> Cancelled 30) = Inl err)
   \<and> (\<exists>err. fst (LoadSonosPlaylist household \<lparr>dev = player\<rparr> Cancelled ''Jazz'') = Inl err)
   \<and> length (snd (LoadSonosPlaylist household \<lparr>dev = player\<rparr> Cancelled ''Jazz'')) \<le> 1
   \<and> ZoneDevice homeClient Cancelled ''Kitchen'' = ZoneDevice homeClient Live ''Kitchen''"
proof -
  note T = context_reaches_every_action
             [of household "\<lparr>dev = player\<rparr>" Cancelled 0 30 0 "''Jazz''" homeClient "''Kitchen''"]
  from T household_honours have ops:
    "\<forall>r\<in>set (controlOperations household \<lparr>dev = player\<rparr> Cancelled 0 30 0 ''Jazz'').
       (\<exists>err. fst r = Inl err) \<and> length (snd r) \<le> 1"
    by (elim conjE impE) assumption+
  have mem:
    "SetVolume household \<lparr>dev = player\<rparr> Cancelled 30
       \<in> set (controlOperations household \<lparr>dev = player\<rparr> Cancelled 0 30 0 ''Jazz'')"
    "LoadSonosPlaylist household \<lparr>dev = player\<rparr> Cancelled ''Jazz''
       \<in> set (controlOperations household \<lparr>dev = player\<rparr> Cancelled 0 30 0 ''Jazz'')"
    by (simp_all add: controlOperations_def)
  from T have z: "ZoneDevice homeClient Cancelled ''Kitchen'' = ZoneDevice homeClient Live ''Kitchen''"
    by (elim conjE)
  from ops mem(1) have
    "(\<exists>err. fst (SetVolume household \<lparr>dev = player\<rparr> Cancelled 30) = Inl err)
     \<and> length (snd (SetVolume household \<lparr>dev = player\<rparr> Cancelled 30)) \<le> 1"
    by (rule bspec)
  then have 1: "\<exists>err. fst (SetVolume household \<lparr>dev = player\<rparr> Cancelled 30) = Inl err"
    by (rule conjunct1)
  from ops mem(2) have 2:
    "(\<exists>err. fst (LoadSonosPlaylist household \<lparr>dev = player\<rparr> Cancelled ''Jazz'') = Inl err)
     \<and> length (snd (LoadSonosPlaylist household \<lparr>dev = player\<rparr> Cancelled ''Jazz'')) \<le> 1"
    by (rule bspec)
  from 1 2 z show ?thesis by (intro conjI) (elim conjE, assumption)+
qed

text \<open>The specification's sentence fails at \<open>Discover\<close>: in the household, whose
  transport refuses every call made with a cancelled context, \<open>Discover\<close> given a
  cancelled context still issues the probe, which has no context to look at, and
  returns a client (all six Sonos devices, no zone), not an error. \<open>ZoneDevice\<close> given
  a cancelled context returns its handle.\<close>

theorem Discover_cancelled_succeeds:
  "PerformActionCtx household Cancelled (NewSOAPClient (svc ''10.0.0.2'' devPropertiesService))
     devPropertiesService ''GetZoneAttributes'' [] = Inl ''context canceled''
   \<and> fst (Discover household Cancelled) =
       Inr \<lparr>devices = [boost, player, bridge, sub, amp, den], zones = Map.empty\<rparr>
   \<and> hd (snd (Discover household Cancelled)) = Probe devPropertiesService
   \<and> ZoneDevice homeClient Cancelled ''Kitchen'' = Inr \<lparr>dev = player\<rparr>"
proof (intro conjI)
  show "PerformActionCtx household Cancelled (NewSOAPClient (svc ''10.0.0.2'' devPropertiesService))
     devPropertiesService ''GetZoneAttributes'' [] = Inl ''context canceled''"
    by (simp add: household_def)
  show "fst (Discover household Cancelled) =
       Inr \<lparr>devices = [boost, player, bridge, sub, amp, den], zones = Map.empty\<rparr>"
    by (simp add: household_Discover)
  show "hd (snd (Discover household Cancelled)) = Probe devPropertiesService"
    by (simp add: household_Discover)
  show "ZoneDevice homeClient Cancelled ''Kitchen'' = Inr \<lparr>dev = player\<rparr>"
    by (simp add: ZoneDevice_def homeClient_def serviceClient_def FindService_def
        device_defs urn_defs)
qed

end
